theory Spec2Isabelle
  imports Complex_Main
begin

section \<open>Values, errors and labelled datasets\<close>

text \<open>
  The program works on xarray datasets holding one physical variable on a
  (time, y, x) grid. Cell values are floating-point numbers; the model keeps the
  one feature of floating point the program relies on, the absorbing value NaN,
  and takes all other arithmetic over the reals (no rounding error).
\<close>

datatype fval = Val real | NaN

fun fadd :: "fval \<Rightarrow> fval \<Rightarrow> fval" where
  "fadd (Val a) (Val b) = Val (a + b)"
| "fadd _ _ = NaN"

fun fsub :: "fval \<Rightarrow> fval \<Rightarrow> fval" where
  "fsub (Val a) (Val b) = Val (a - b)"
| "fsub _ _ = NaN"

fun fmul :: "fval \<Rightarrow> fval \<Rightarrow> fval" where
  "fmul (Val a) (Val b) = Val (a * b)"
| "fmul _ _ = NaN"

datatype py_error =
  IndexError | KeyError | ValueError | ZeroDivisionError | AttributeError | UnboundLocalError

text \<open>A lon/lat coordinate array is one-dimensional (rectilinear grid) or two-dimensional.\<close>

datatype coord = Coord1D "real list" | Coord2D "real list list"

text \<open>
  \<open>dims\<close> is \<open>data.dims\<close> (dimension name and size, in order), \<open>chunks\<close> is
  \<open>data.chunks\<close> (the dask block sizes along each dimension), \<open>attrs\<close> are the
  attributes of the dataset and \<open>var_attrs\<close> those of its data variable,
  \<open>n_data_vars\<close> is \<open>len(data.data_vars)\<close>, \<open>lon_dims\<close> and \<open>lat_dims\<close> name the
  dimensions the lon/lat coordinates lie on, and \<open>vals\<close> are the values of the
  variable, indexed time, then y, then x.
\<close>

record dataset =
  dims :: "(string \<times> nat) list"
  chunks :: "(string \<times> nat list) list"
  attrs :: "(string \<times> string) list"
  var_attrs :: "(string \<times> string) list"
  n_data_vars :: nat
  time :: "int list"
  lon :: coord
  lat :: coord
  lon_dims :: "string list"
  lat_dims :: "string list"
  vals :: "fval list list list"


section \<open>Re-chunking: \<open>manage_chunks\<close>\<close>

text \<open>\<open>np.round\<close>: round to the nearest integer, halves to the even neighbour.\<close>

definition np_round :: "real \<Rightarrow> int" where
  "np_round x =
     (let f = \<lfloor>x\<rfloor> in
      if x - of_int f < 1 / 2 then f
      else if 1 / 2 < x - of_int f then f + 1
      else if even f then f else f + 1)"

text \<open>
  The block sizes dask derives from one chunk length \<open>c\<close> on a dimension of size \<open>n\<close>:
  \<open>n div c\<close> full blocks and one shorter block for the remainder; an empty dimension
  has the single block \<open>0\<close>. A chunk length of zero on a non-empty dimension makes
  dask divide by zero.
\<close>

definition blockdims :: "nat \<Rightarrow> nat \<Rightarrow> nat list" where
  "blockdims c n =
     (if n = 0 then [0]
      else replicate (n div c) c @ (if n mod c = 0 then [] else [n mod c]))"

text \<open>
  \<open>data.chunk(spec)\<close>: every dimension named in \<open>spec\<close> is re-blocked to the given
  chunk length, every other dimension keeps its blocks (one block when it had none).
  A name that is not a dimension is a \<open>ValueError\<close>.
\<close>

definition xr_chunk :: "dataset \<Rightarrow> (string \<times> nat) list \<Rightarrow> py_error + dataset" where
  "xr_chunk data spec =
     (if list_ex (\<lambda>(k, c). map_of (dims data) k = None) spec then Inl ValueError
      else if list_ex (\<lambda>(k, c). c = 0 \<and> map_of (dims data) k \<noteq> Some 0) spec
        then Inl ZeroDivisionError
      else Inr (data\<lparr>chunks :=
        map (\<lambda>(k, n). (k,
               case map_of spec k of
                 Some c \<Rightarrow> blockdims c n
               | None \<Rightarrow> (case map_of (chunks data) k of Some bs \<Rightarrow> bs | None \<Rightarrow> [n])))
            (dims data)\<rparr>))"

definition spcdim_x :: "string list" where
  "spcdim_x = [''x'', ''X'', ''lon'', ''rlon'']"

definition spcdim_y :: "string list" where
  "spcdim_y = [''y'', ''Y'', ''lat'', ''rlat'']"

text \<open>\<open>[x for x in data.dims if x in names][0]\<close>, with its \<open>IndexError\<close>.\<close>

definition first_dim_in :: "dataset \<Rightarrow> string list \<Rightarrow> py_error + (string \<times> nat)" where
  "first_dim_in data names =
     (case filter (\<lambda>(k, n). k \<in> set names) (dims data) of
        [] \<Rightarrow> Inl IndexError
      | kn # _ \<Rightarrow> Inr kn)"

text \<open>
  The chunk edge of the space mode. The square root and the quotient are taken over
  the reals, where the code computes them in IEEE doubles; the two agree unless the
  real quotient lies within the rounding error of a half (at 80 by 121 cells the real
  quotient is 27.5 and rounds to 28, the doubles give a quotient just below and 27).
  With an empty spatial dimension numpy divides by zero and the integer cast of the
  result is no chunk length; the model reports that as \<open>ValueError\<close>.
\<close>

definition c_size :: "nat \<Rightarrow> nat \<Rightarrow> nat" where
  "c_size xsize ysize =
     (let cmax = 500;
          n = sqrt (real (xsize * ysize) / cmax)
      in nat (np_round (real (max xsize ysize) / n)))"

definition rchunk_size :: "nat \<Rightarrow> nat" where
  "rchunk_size tsize = nat (np_round (real tsize / 500))"

definition manage_chunks :: "dataset \<Rightarrow> string \<Rightarrow> py_error + dataset" where
  "manage_chunks data chunk_dim =
     (if chunk_dim = ''space'' then
        (case first_dim_in data spcdim_x of
           Inl e \<Rightarrow> Inl e
         | Inr (xd, xsize) \<Rightarrow>
        (case first_dim_in data spcdim_y of
           Inl e \<Rightarrow> Inl e
         | Inr (yd, ysize) \<Rightarrow>
             if xsize * ysize = 0 then Inl ValueError
             else xr_chunk data
                    [(''time'', length (time data)),
                     (xd, c_size xsize ysize), (yd, c_size xsize ysize)]))
      else
        (case map_of (chunks data) ''time'' of
           None \<Rightarrow> Inl KeyError
         | Some tchunks \<Rightarrow>
             if length tchunks > 500
             then xr_chunk data [(''time'', rchunk_size (length (time data)))]
             else Inr data))"

text \<open>The number of dask blocks of a dataset: the product of the block counts per dimension.\<close>

definition n_chunks :: "dataset \<Rightarrow> nat" where
  "n_chunks data = prod_list (map (\<lambda>(k, bs). length bs) (chunks data))"

text \<open>
  A well-formed dataset of the program: the dimensions are time, a y dimension and an
  x dimension under one of the accepted names, none of them empty; the time coordinate
  and the values have that shape; the dask blocks are non-empty and cover each
  dimension exactly.
\<close>

fun wf_shape :: "(string \<times> nat) list \<Rightarrow> int list \<Rightarrow> fval list list list \<Rightarrow> bool" where
  "wf_shape [(td, tn), (yd, ny), (xd, nx)] tm v =
     (td = ''time'' \<and> yd \<in> set spcdim_y \<and> xd \<in> set spcdim_x \<and>
      0 < tn \<and> 0 < ny \<and> 0 < nx \<and> length tm = tn \<and> length v = tn \<and>
      list_all (\<lambda>fr. length fr = ny \<and> list_all (\<lambda>row. length row = nx) fr) v)"
| "wf_shape _ tm v = False"

definition wf_dataset :: "dataset \<Rightarrow> bool" where
  "wf_dataset data =
     (wf_shape (dims data) (time data) (vals data) \<and>
      list_all2 (\<lambda>(k, bs) (k', n). k = k' \<and> sum_list bs = n \<and> list_all (\<lambda>b. 0 < b) bs)
        (chunks data) (dims data))"

text \<open>
  The physical grouping of the values that the block sizes describe: the time axis cut
  into its blocks, the rows of every time step into the y blocks, every row into the x
  blocks. \<open>assemble\<close> puts the pieces back in order.
\<close>

fun split_sizes :: "nat list \<Rightarrow> 'a list \<Rightarrow> 'a list list" where
  "split_sizes [] xs = []"
| "split_sizes (c # cs) xs = take c xs # split_sizes cs (drop c xs)"

definition blocks_of :: "dataset \<Rightarrow> fval list list list list list list" where
  "blocks_of data =
     (case map snd (chunks data) of
        [ct, cy, cx] \<Rightarrow>
          map (map (\<lambda>fr. split_sizes cy (map (split_sizes cx) fr)))
            (split_sizes ct (vals data))
      | _ \<Rightarrow> [])"

definition assemble :: "fval list list list list list list \<Rightarrow> fval list list list" where
  "assemble bl = concat (map (map (\<lambda>g. map concat (concat g))) bl)"


section \<open>Preprocessing: \<open>get_prep_func\<close>\<close>

text \<open>
  The preprocessing function acts on the time axis of each opened file: the time
  coordinate values and the values of the variable, one (y, x) field per time step.
  \<open>data.diff(dim='time')\<close> subtracts each field from its successor and labels the
  difference with the later time; \<open>data.isel(time=slice(0, -1))\<close> drops the last step.
\<close>

record timeseries =
  ts_time :: "int list"
  ts_vals :: "fval list list list"

definition xr_diff_time :: "timeseries \<Rightarrow> timeseries" where
  "xr_diff_time data =
     \<lparr>ts_time = tl (ts_time data),
      ts_vals = map2 (map2 (map2 fsub)) (tl (ts_vals data)) (butlast (ts_vals data))\<rparr>"

definition xr_isel_time_0_m1 :: "timeseries \<Rightarrow> timeseries" where
  "xr_isel_time_0_m1 data =
     \<lparr>ts_time = butlast (ts_time data), ts_vals = butlast (ts_vals data)\<rparr>"

definition get_prep_func :: "bool \<Rightarrow> timeseries \<Rightarrow> timeseries" where
  "get_prep_func deacc = (if deacc then xr_diff_time else xr_isel_time_0_m1)"


section \<open>Coordinate order of observations: \<open>get_obs_data\<close>\<close>

text \<open>
  The part of \<open>get_obs_data\<close> after the files are read, the years selected and the
  values scaled: it puts the lon/lat arrays of the returned grid and the data in
  ascending order. The state is the pair of coordinate arrays, the values of the
  variable (time, y, x), and for the x and the y dimension whether it has an index
  coordinate: re-indexing the dataset with the reversed labels of a dimension reverses
  the values along that dimension when it has one, and leaves them in place otherwise.
\<close>

record obs_grid =
  lons :: coord
  lats :: coord
  x_index :: bool
  y_index :: bool
  obs_vals :: "fval list list list"

text \<open>
  \<open>np.diff(a)\<close> of a one-dimensional array, and \<open>np.diff(a)[0]\<close>; an array with fewer
  than two elements has no first difference.
\<close>

fun np_diff :: "real list \<Rightarrow> real list" where
  "np_diff (a # b # xs) = (b - a) # np_diff (b # xs)"
| "np_diff _ = []"

fun np_diff0 :: "real list \<Rightarrow> py_error + real" where
  "np_diff0 (a # b # _) = Inr (b - a)"
| "np_diff0 _ = Inl IndexError"

text \<open>\<open>a[0, :]\<close> and \<open>a[:, 0]\<close> of a two-dimensional array.\<close>

fun row0 :: "real list list \<Rightarrow> py_error + real list" where
  "row0 (r # _) = Inr r"
| "row0 [] = Inl IndexError"

definition col0 :: "real list list \<Rightarrow> py_error + real list" where
  "col0 a = (if list_ex (\<lambda>r. r = []) a then Inl IndexError else Inr (map hd a))"

definition reindex_rev_x :: "obs_grid \<Rightarrow> fval list list list" where
  "reindex_rev_x g = (if x_index g then map (map rev) (obs_vals g) else obs_vals g)"

definition reindex_rev_y :: "obs_grid \<Rightarrow> fval list list list" where
  "reindex_rev_y g = (if y_index g then map rev (obs_vals g) else obs_vals g)"

text \<open>\<open>np.flipud\<close> reverses a two-dimensional array along its first axis (the rows).\<close>

definition flipud :: "real list list \<Rightarrow> real list list" where
  "flipud a = rev a"

text \<open>
  The branch is chosen by the number of dimensions of the longitudes alone. With
  one-dimensional longitudes and two-dimensional latitudes, \<open>np.diff(lats)[0]\<close> is the
  row of differences of the first row of latitudes: its truth value is that of its
  one element, false when it is empty, and a \<open>ValueError\<close> when it has more elements;
  \<open>lats[::-1]\<close> then reverses the rows. With two-dimensional longitudes and
  one-dimensional latitudes, \<open>lats[:, 0]\<close> is an \<open>IndexError\<close>.
\<close>

definition get_obs_data :: "obs_grid \<Rightarrow> py_error + obs_grid" where
  "get_obs_data g =
     (case (lons g, lats g) of
        (Coord1D lo, Coord1D la) \<Rightarrow>
          (case np_diff0 lo of
             Inl e \<Rightarrow> Inl e
           | Inr dlo \<Rightarrow>
               let g1 = (if dlo < 0
                         then g\<lparr>lons := Coord1D (rev lo), obs_vals := reindex_rev_x g\<rparr>
                         else g)
               in (case np_diff0 la of
                     Inl e \<Rightarrow> Inl e
                   | Inr dla \<Rightarrow>
                       Inr (if dla < 0
                            then g1\<lparr>lats := Coord1D (rev la), obs_vals := reindex_rev_y g1\<rparr>
                            else g1)))
      | (Coord1D lo, Coord2D la) \<Rightarrow>
          (case np_diff0 lo of
             Inl e \<Rightarrow> Inl e
           | Inr dlo \<Rightarrow>
               let g1 = (if dlo < 0
                         then g\<lparr>lons := Coord1D (rev lo), obs_vals := reindex_rev_x g\<rparr>
                         else g)
               in (case row0 la of
                     Inl e \<Rightarrow> Inl e
                   | Inr la0 \<Rightarrow>
                       (case np_diff la0 of
                          [] \<Rightarrow> Inr g1
                        | [dla] \<Rightarrow>
                            Inr (if dla < 0
                                 then g1\<lparr>lats := Coord2D (rev la), obs_vals := reindex_rev_y g1\<rparr>
                                 else g1)
                        | _ \<Rightarrow> Inl ValueError)))
      | (Coord2D lo, Coord2D la) \<Rightarrow>
          (case row0 lo of
             Inl e \<Rightarrow> Inl e
           | Inr lo0 \<Rightarrow>
          (case np_diff0 lo0 of
             Inl e \<Rightarrow> Inl e
           | Inr dlo \<Rightarrow>
               let g1 = (if dlo < 0
                         then g\<lparr>lons := Coord2D (flipud lo), obs_vals := reindex_rev_x g\<rparr>
                         else g)
               in (case col0 la of
                     Inl e \<Rightarrow> Inl e
                   | Inr la0 \<Rightarrow>
                  (case np_diff0 la0 of
                     Inl e \<Rightarrow> Inl e
                   | Inr dla \<Rightarrow>
                       Inr (if dla < 0
                            then g1\<lparr>lats := Coord2D (flipud la), obs_vals := reindex_rev_y g1\<rparr>
                            else g1)))))
      | (Coord2D lo, Coord1D la) \<Rightarrow> Inl IndexError)"

text \<open>
  Ascending order of a coordinate array: a one-dimensional array increases along its
  axis, a two-dimensional longitude array along every row (the x axis).
\<close>

fun ascending :: "real list \<Rightarrow> bool" where
  "ascending (a # b # xs) = (a < b \<and> ascending (b # xs))"
| "ascending _ = True"

fun descending :: "real list \<Rightarrow> bool" where
  "descending (a # b # xs) = (b < a \<and> descending (b # xs))"
| "descending _ = True"

definition lon_ascending :: "coord \<Rightarrow> bool" where
  "lon_ascending c = (case c of Coord1D l \<Rightarrow> ascending l | Coord2D a \<Rightarrow> list_all ascending a)"


section \<open>Regridding: \<open>_rgr_calc\<close>, \<open>get_grids\<close>, \<open>regridding\<close>\<close>

text \<open>A numpy array: its shape and its elements in row-major order.\<close>

record ndarray =
  shape :: "nat list"
  buf :: "fval list"

text \<open>
  A sparse matrix: its shape and, for every row, the stored entries as pairs of a
  column index and a weight.
\<close>

record spmatrix =
  n_rows :: nat
  n_cols :: nat
  rows :: "(nat \<times> fval) list list"

definition wf_spmatrix :: "spmatrix \<Rightarrow> bool" where
  "wf_spmatrix A =
     (length (rows A) = n_rows A \<and> list_all (list_all (\<lambda>(c, w). c < n_cols A)) (rows A))"

text \<open>\<open>a.reshape(shp)\<close> keeps the elements and fails when their number does not fit.\<close>

definition reshape :: "ndarray \<Rightarrow> nat list \<Rightarrow> py_error + ndarray" where
  "reshape a shp =
     (if prod_list shp = length (buf a) then Inr (a\<lparr>shape := shp\<rparr>) else Inl ValueError)"

text \<open>\<open>a.reshape(-1, n)\<close>: the first extent is inferred, which needs \<open>n\<close> to be positive
  and to divide the number of elements.\<close>

definition reshape_m1 :: "ndarray \<Rightarrow> nat \<Rightarrow> py_error + ndarray" where
  "reshape_m1 a n =
     (if n = 0 \<or> length (buf a) mod n \<noteq> 0 then Inl ValueError
      else Inr (a\<lparr>shape := [length (buf a) div n, n]\<rparr>))"

text \<open>\<open>a.T\<close> of a two-dimensional array (the program transposes no other).\<close>

definition nd_T :: "ndarray \<Rightarrow> ndarray" where
  "nd_T a =
     (case shape a of
        [r, c] \<Rightarrow>
          \<lparr>shape = [c, r],
           buf = concat (map (\<lambda>j. map (\<lambda>i. buf a ! (i * c + j)) [0..<r]) [0..<c])\<rparr>
      | _ \<Rightarrow> a)"

text \<open>
  \<open>A.dot(X)\<close> for a sparse \<open>A\<close> and a dense two-dimensional \<open>X\<close>: entry \<open>(r, j)\<close> sums, from
  zero, the products of the stored weights of row \<open>r\<close> with the entries of column \<open>j\<close>
  of \<open>X\<close>. The inner dimensions must agree.
\<close>

definition row_dot :: "(nat \<times> fval) list \<Rightarrow> (nat \<Rightarrow> fval) \<Rightarrow> fval" where
  "row_dot row x = foldl (\<lambda>acc (c, w). fadd acc (fmul w (x c))) (Val 0) row"

definition sp_dot :: "spmatrix \<Rightarrow> ndarray \<Rightarrow> py_error + ndarray" where
  "sp_dot A X =
     (case shape X of
        [k, t] \<Rightarrow>
          if n_cols A \<noteq> k then Inl ValueError
          else Inr \<lparr>shape = [n_rows A, t],
                    buf = concat (map (\<lambda>row. map (\<lambda>j. row_dot row (\<lambda>c. buf X ! (c * t + j))) [0..<t])
                                      (rows A))\<rparr>
      | _ \<Rightarrow> Inl ValueError)"

definition rgr_calc :: "ndarray \<Rightarrow> spmatrix \<Rightarrow> nat \<times> nat \<Rightarrow> py_error + ndarray" where
  "rgr_calc data A out_dims =
     (let s = shape data in
      if length s < 2 then Inl IndexError
      else
        let Ny_in = s ! (length s - 2);
            Nx_in = s ! (length s - 1)
        in (case reshape_m1 data (Ny_in * Nx_in) of
              Inl e \<Rightarrow> Inl e
            | Inr indata_flat \<Rightarrow>
           (case sp_dot A (nd_T indata_flat) of
              Inl e \<Rightarrow> Inl e
            | Inr outdata_flat_T \<Rightarrow>
                let outdata_flat = nd_T outdata_flat_T;
                    N_extra_list = take (length s - 2) s;
                    (Ny_out, Nx_out) = out_dims
                in reshape outdata_flat (N_extra_list @ [Ny_out, Nx_out]))))"

text \<open>
  Modelled from the spec: \<open>add_matrix_NaNs\<close> belongs to the module
  \<open>grid_interpolation\<close>, which is not among the sources. The specification says that
  rows with all-zero weight are detected and replaced with an explicit NaN-producing
  row; the model replaces such a row by the single stored entry NaN in column 0.
\<close>

definition zero_weight_row :: "(nat \<times> fval) list \<Rightarrow> bool" where
  "zero_weight_row row = list_all (\<lambda>(c, w). w = Val 0) row"

definition add_matrix_NaNs :: "spmatrix \<Rightarrow> spmatrix" where
  "add_matrix_NaNs A =
     A\<lparr>rows := map (\<lambda>row. if zero_weight_row row then [(0, NaN)] else row) (rows A)\<rparr>"

text \<open>A grid is the pair of lon/lat arrays (\<open>grid['lon']\<close>, \<open>grid['lat']\<close>).\<close>

record grid =
  g_lon :: coord
  g_lat :: coord

fun coord_size :: "coord \<Rightarrow> nat" where
  "coord_size (Coord1D l) = length l"
| "coord_size (Coord2D a) = sum_list (map length a)"

fun shape0 :: "real list list \<Rightarrow> nat" where
  "shape0 a = length a"

fun shape1 :: "real list list \<Rightarrow> nat" where
  "shape1 [] = 0"
| "shape1 (r # _) = length r"

text \<open>
  \<open>get_grids\<close>: the source grid of the dataset, the target grid, the output extents
  \<open>(Ny_out, Nx_out)\<close> and the dimensions of the output coordinates. The cell bounds
  that the conservative method adds are input of the external regridder only and are
  left out.
\<close>

definition get_grids ::
  "dataset \<Rightarrow> grid \<Rightarrow> grid \<times> grid \<times> (nat \<times> nat) \<times> (string list \<times> string list)" where
  "get_grids nc target_grid =
     (let s_grid = \<lparr>g_lon = lon nc, g_lat = lat nc\<rparr>;
          t_grid = target_grid
      in (case g_lon t_grid of
            Coord1D l \<Rightarrow>
              (s_grid, t_grid, (coord_size (g_lat t_grid), length l), ([''x''], [''y'']))
          | Coord2D a \<Rightarrow>
              (s_grid, t_grid, (shape0 a, shape1 a), ([''y'', ''x''], [''y'', ''x'']))))"

text \<open>The numpy array of a block of time steps, and the time steps of an array.\<close>

definition block_array :: "nat \<Rightarrow> nat \<Rightarrow> fval list list list \<Rightarrow> ndarray" where
  "block_array ny nx blk = \<lparr>shape = [length blk, ny, nx], buf = concat (map concat blk)\<rparr>"

definition chop :: "nat \<Rightarrow> nat \<Rightarrow> 'a list \<Rightarrow> 'a list list" where
  "chop n k xs = map (\<lambda>i. take n (drop (i * n) xs)) [0..<k]"

definition array_frames :: "ndarray \<Rightarrow> fval list list list" where
  "array_frames a =
     (case shape a of
        [t, ny, nx] \<Rightarrow> map (chop nx ny) (chop (ny * nx) t (buf a))
      | _ \<Rightarrow> [])"

text \<open>\<open>da.map_blocks(_rgr_calc, ...)\<close> over the blocks of time steps, results in order.\<close>

fun map_blocks ::
  "(ndarray \<Rightarrow> py_error + ndarray) \<Rightarrow> nat \<Rightarrow> nat \<Rightarrow> fval list list list list
     \<Rightarrow> py_error + fval list list list" where
  "map_blocks f ny nx [] = Inr []"
| "map_blocks f ny nx (blk # blks) =
     (case f (block_array ny nx blk) of
        Inl e \<Rightarrow> Inl e
      | Inr out \<Rightarrow>
          (case map_blocks f ny nx blks of
             Inl e \<Rightarrow> Inl e
           | Inr rest \<Rightarrow> Inr (array_frames out @ rest)))"

text \<open>
  The application of the matrix as the specification words it, for one time step:
  flatten the field to length \<open>Ny_in * Nx_in\<close>, multiply by the matrix, reshape the
  product to \<open>(Ny_out, Nx_out)\<close>.
\<close>

definition apply_matrix :: "spmatrix \<Rightarrow> nat \<times> nat \<Rightarrow> fval list list \<Rightarrow> fval list list" where
  "apply_matrix A out_dims field =
     (let flat = concat field;
          product = map (\<lambda>row. row_dot row (\<lambda>c. flat ! c)) (rows A)
      in chop (snd out_dims) (fst out_dims) product)"

text \<open>
  The shape of a coordinate array must fit the dimensions it is attached to, else
  building the \<open>DataArray\<close> fails.
\<close>

fun coord_fits :: "coord \<Rightarrow> string list \<Rightarrow> nat \<times> nat \<Rightarrow> bool" where
  "coord_fits (Coord1D l) dms (ny, nx) =
     (dms = [''x''] \<and> length l = nx \<or> dms = [''y''] \<and> length l = ny)"
| "coord_fits (Coord2D a) dms (ny, nx) =
     (dms = [''y'', ''x''] \<and> length a = ny \<and> list_all (\<lambda>r. length r = nx) a)"

text \<open>
  The body of \<open>regridding\<close> once \<open>indata = data[data_name]['data']\<close> is read.
  \<open>weights\<close> stands for the weight matrix of the external regridder
  \<open>xe.Regridder(sgrid, tgrid, method)\<close>. The variable has the dimensions (time, y, x);
  \<open>_rgr_calc\<close> sees whole fields only when the data is one block in space, otherwise
  the blocks do not have the cells the matrix expects. The new \<open>DataArray\<close> has the
  dimensions \<open>time\<close>, \<open>y\<close>, \<open>x\<close>, the declared blocks, the time values of the input and
  \<open>attrs=indata.attrs.copy()\<close>, the attributes of the input dataset; \<open>to_dataset()\<close>
  makes it the one variable of a dataset without attributes of its own.
\<close>

definition regrid_dataset ::
  "(grid \<Rightarrow> grid \<Rightarrow> string \<Rightarrow> spmatrix) \<Rightarrow> dataset \<Rightarrow> grid \<Rightarrow> string \<Rightarrow> py_error + dataset" where
  "regrid_dataset weights indata target_grid method =
     (case get_grids indata target_grid of
        (sgrid, tgrid, dim_val, dim_shape) \<Rightarrow>
     (case (map snd (dims indata), map snd (chunks indata)) of
        ([tn, ny, nx], [ct, cy, cx]) \<Rightarrow>
          if length cy \<noteq> 1 \<or> length cx \<noteq> 1 then Inl ValueError
          else
            let regridder = add_matrix_NaNs (weights sgrid tgrid method);
                A = regridder
            in (case map_of (chunks indata) ''time'' of
                  None \<Rightarrow> Inl KeyError
                | Some tchunks \<Rightarrow>
               (case map_blocks (\<lambda>blk. rgr_calc blk A dim_val) ny nx
                       (split_sizes ct (vals indata)) of
                  Inl e \<Rightarrow> Inl e
                | Inr rgr_data \<Rightarrow>
                    if \<not> coord_fits (g_lon target_grid) (fst dim_shape) dim_val
                       \<or> \<not> coord_fits (g_lat target_grid) (snd dim_shape) dim_val
                       \<or> length (time indata) \<noteq> length rgr_data
                    then Inl ValueError
                    else Inr \<lparr>dims = [(''time'', length rgr_data),
                                       (''y'', fst dim_val), (''x'', snd dim_val)],
                              chunks = [(''time'', tchunks),
                                        (''y'', [fst dim_val]), (''x'', [snd dim_val])],
                              attrs = [],
                              var_attrs = attrs indata,
                              n_data_vars = 1,
                              time = time indata,
                              lon = g_lon target_grid,
                              lat = g_lat target_grid,
                              lon_dims = fst dim_shape,
                              lat_dims = snd dim_shape,
                              vals = rgr_data\<rparr>))
      | _ \<Rightarrow> Inl ValueError))"


text \<open>
  What \<open>regridding\<close> expects of its input: a well-formed dataset in one block in
  space, a weight matrix with one column per source cell and one row per target cell,
  and target coordinates of the shape \<open>get_grids\<close> reads off them.
\<close>

definition regrid_ready ::
  "(grid \<Rightarrow> grid \<Rightarrow> string \<Rightarrow> spmatrix) \<Rightarrow> dataset \<Rightarrow> grid \<Rightarrow> string \<Rightarrow> bool" where
  "regrid_ready weights indata target_grid method =
     (case get_grids indata target_grid of
        (sgrid, tgrid, dim_val, dim_shape) \<Rightarrow>
          wf_dataset indata \<and>
          (case map snd (chunks indata) of
             [ct, cy, cx] \<Rightarrow> length cy = 1 \<and> length cx = 1
           | _ \<Rightarrow> False) \<and>
          (case map snd (dims indata) of
             [tn, ny, nx] \<Rightarrow> n_cols (weights sgrid tgrid method) = ny * nx
           | _ \<Rightarrow> False) \<and>
          wf_spmatrix (weights sgrid tgrid method) \<and>
          n_rows (weights sgrid tgrid method) = fst dim_val * snd dim_val \<and>
          coord_fits (g_lon target_grid) (fst dim_shape) dim_val \<and>
          coord_fits (g_lat target_grid) (snd dim_shape) dim_val)"


section \<open>Choice of the target grid: \<open>remap_func\<close>\<close>

text \<open>
  \<open>dd\<close> maps the name of a participant (model or observation) to its entry: the
  dataset, its grid and the name of the grid.
\<close>

record entry =
  e_data :: dataset
  e_grid :: grid
  e_gridname :: string



definition regridding ::
  "(grid \<Rightarrow> grid \<Rightarrow> string \<Rightarrow> spmatrix) \<Rightarrow> (string \<rightharpoonup> entry) \<Rightarrow> string \<Rightarrow> grid \<Rightarrow> string
     \<Rightarrow> py_error + dataset" where
  "regridding weights data data_name target_grid method =
     (case data data_name of
        None \<Rightarrow> Inl KeyError
      | Some e \<Rightarrow> regrid_dataset weights (e_data e) target_grid method)"





section \<open>Statistics per participant and region: \<open>calc_stats\<close>\<close>

text \<open>
  The collaborators of \<open>calc_stats\<close> outside this module: the statistics
  (\<open>st.calc_statistics\<close> for a dataset, a variable and a statistic), the region masks
  (\<open>gfunc.reg_mask\<close> on the lon/lat arrays), xarray's \<open>where(mask, drop=True)\<close>, the
  resampling along time with a frequency and a reducer, and pandas' conversion of a
  frequency to seconds (\<open>to_timedelta(f).total_seconds()\<close>), which raises a
  \<open>ValueError\<close> on a string it cannot read.
\<close>

record ext =
  calc_statistics :: "dataset \<Rightarrow> string \<Rightarrow> string \<Rightarrow> dataset"
  reg_mask :: "coord \<Rightarrow> coord \<Rightarrow> string \<Rightarrow> bool list list"
  where_drop :: "dataset \<Rightarrow> bool list list list \<Rightarrow> dataset"
  resample :: "dataset \<Rightarrow> string \<Rightarrow> string \<Rightarrow> dataset"
  total_seconds :: "string \<Rightarrow> py_error + int"

record stat_conf =
  resample_resolution :: "(string \<times> string) option"

record stat_entry =
  st_domain :: dataset
  st_regions :: "(string \<rightharpoonup> dataset) option"

text \<open>
  \<open>np.broadcast_to(mask, data[var].shape)\<close> for a two-dimensional mask, given by its
  rows, and the shape (time, y, x) of the variable: an axis of the mask must have the
  extent of the variable or the extent one, which is repeated; the result is the
  same mask at every time step. Anything else is a \<open>ValueError\<close>, also rows of
  different lengths, which are no array. A variable of other dimensions than
  (time, y, x) is outside the model and refused as well.
\<close>

definition stretch :: "nat \<Rightarrow> 'a list \<Rightarrow> py_error + 'a list" where
  "stretch n xs =
     (if length xs = n then Inr xs
      else if length xs = 1 then Inr (replicate n (hd xs))
      else Inl ValueError)"

definition broadcast_to :: "bool list list \<Rightarrow> nat list \<Rightarrow> py_error + bool list list list" where
  "broadcast_to m shp =
     (case shp of
        [tn, ny, nx] \<Rightarrow>
          if list_ex (\<lambda>row. length row \<noteq> length (hd m)) m
             \<or> list_ex (\<lambda>row. length row \<noteq> nx \<and> length row \<noteq> 1) m
          then Inl ValueError
          else
            (case stretch ny (map (\<lambda>row. if length row = nx then row
                                           else replicate nx (hd row)) m) of
               Inl e \<Rightarrow> Inl e
             | Inr m2 \<Rightarrow> Inr (replicate tn m2))
      | _ \<Rightarrow> Inl ValueError)"

text \<open>\<open>get_masked_data\<close>: the mask, broadcast to the shape of the variable, selects.\<close>

definition get_masked_data :: "ext \<Rightarrow> dataset \<Rightarrow> bool list list \<Rightarrow> py_error + dataset" where
  "get_masked_data X data region_mask =
     (case broadcast_to region_mask (map snd (dims data)) of
        Inl e \<Rightarrow> Inl e
      | Inr mask_in \<Rightarrow> Inr (where_drop X data mask_in))"

text \<open>
  The dictionary \<open>{r: get_masked_data(data, v, masks[r]) for r in regions}\<close>, built
  region by region.
\<close>

fun masked_regions ::
  "ext \<Rightarrow> dataset \<Rightarrow> (string \<Rightarrow> bool list list) \<Rightarrow> string list
     \<Rightarrow> py_error + (string \<times> dataset) list" where
  "masked_regions X data masks [] = Inr []"
| "masked_regions X data masks (r # rs) =
     (case get_masked_data X data (masks r) of
        Inl e \<Rightarrow> Inl e
      | Inr md \<Rightarrow>
          (case masked_regions X data masks rs of
             Inl e \<Rightarrow> Inl e
           | Inr rest \<Rightarrow> Inr ((r, md) # rest)))"

text \<open>\<open>indata[v].to_dataset()\<close> keeps the one variable and drops the dataset attributes.\<close>

definition select_variable :: "dataset \<Rightarrow> dataset" where
  "select_variable indata = indata\<lparr>n_data_vars := 1, attrs := []\<rparr>"

text \<open>
  The body of the loop of \<open>calc_stats\<close> for a participant that has data, in two
  steps. First the data the statistics are computed on: the variable is selected when
  the dataset holds more than two, the time axis is resampled when the statistic asks
  for a resolution other than that of the data, and the result is re-chunked.
\<close>

definition calc_stats_input ::
  "ext \<Rightarrow> dataset \<Rightarrow> string \<Rightarrow> string \<Rightarrow> (string \<rightharpoonup> stat_conf) \<Rightarrow> py_error + dataset" where
  "calc_stats_input X indata0 stat chunk_dim stats_config =
     (let indata1 = (if n_data_vars indata0 > 2 then select_variable indata0 else indata0)
      in (case stats_config stat of
            None \<Rightarrow> Inl KeyError
          | Some sc \<Rightarrow>
         (case (case resample_resolution sc of
                  None \<Rightarrow> Inr indata1
                | Some tresample \<Rightarrow>
                    (case time indata1 of
                       t0 # t1 # _ \<Rightarrow>
                         let nsec = t1 - t0
                         in (case total_seconds X (fst tresample) of
                               Inl e \<Rightarrow> Inl e
                             | Inr sec_resample \<Rightarrow>
                                 Inr (if nsec \<noteq> sec_resample
                                      then resample X indata1 (fst tresample) (snd tresample)
                                      else indata1))
                     | _ \<Rightarrow> Inl IndexError)) of
            Inl e \<Rightarrow> Inl e
          | Inr indata \<Rightarrow> manage_chunks indata chunk_dim)))"

text \<open>
  Then the statistic on the whole domain and, when regions are configured (a non-empty
  list), per region: with \<open>pool\<close> the data is masked per region and the statistic
  computed on each masked dataset, without it the statistic of the domain is masked
  per region. The results per region form a dictionary keyed by region.
\<close>

definition calc_stats_entry ::
  "ext \<Rightarrow> dataset \<Rightarrow> string \<Rightarrow> string \<Rightarrow> bool \<Rightarrow> string \<Rightarrow> (string \<rightharpoonup> stat_conf)
     \<Rightarrow> string list option \<Rightarrow> py_error + stat_entry" where
  "calc_stats_entry X indata0 v stat pool chunk_dim stats_config regions =
     (case calc_stats_input X indata0 stat chunk_dim stats_config of
        Inl e \<Rightarrow> Inl e
      | Inr data \<Rightarrow>
          let dom = calc_statistics X data v stat
          in (case regions of
                Some (r0 # rs) \<Rightarrow>
                  let masks = (\<lambda>r. reg_mask X (lon data) (lat data) r)
                  in if pool
                     then (case masked_regions X data masks (r0 # rs) of
                             Inl e \<Rightarrow> Inl e
                           | Inr mdata \<Rightarrow>
                               let st_mdata = map_of (map (\<lambda>(r, md).
                                                (r, calc_statistics X md v stat)) mdata)
                               in Inr \<lparr>st_domain = dom, st_regions = Some st_mdata\<rparr>)
                     else (case masked_regions X dom masks (r0 # rs) of
                             Inl e \<Rightarrow> Inl e
                           | Inr st_mdata \<Rightarrow>
                               Inr \<lparr>st_domain = dom, st_regions = Some (map_of st_mdata)\<rparr>)
              | _ \<Rightarrow> Inr \<lparr>st_domain = dom, st_regions = None\<rparr>))"

text \<open>The loop over the participants \<open>ddict[f][v]\<close>; an entry \<open>None\<close> is passed over.\<close>

fun calc_stats_participants ::
  "ext \<Rightarrow> (string \<times> entry option) list \<Rightarrow> string \<Rightarrow> string \<Rightarrow> bool \<Rightarrow> string
     \<Rightarrow> (string \<rightharpoonup> stat_conf) \<Rightarrow> string list option
     \<Rightarrow> py_error + (string \<times> stat_entry) list" where
  "calc_stats_participants X [] v stat pool chunk_dim stats_config regions = Inr []"
| "calc_stats_participants X ((m, None) # ps) v stat pool chunk_dim stats_config regions =
     calc_stats_participants X ps v stat pool chunk_dim stats_config regions"
| "calc_stats_participants X ((m, Some en) # ps) v stat pool chunk_dim stats_config regions =
     (case calc_stats_entry X (e_data en) v stat pool chunk_dim stats_config regions of
        Inl e \<Rightarrow> Inl e
      | Inr r \<Rightarrow>
          (case calc_stats_participants X ps v stat pool chunk_dim stats_config regions of
             Inl e \<Rightarrow> Inl e
           | Inr res \<Rightarrow> Inr ((m, r) # res)))"

text \<open>The loop over the variables \<open>vv\<close>, pairs of a variable and its time resolution.\<close>

fun calc_stats ::
  "ext \<Rightarrow> (string \<rightharpoonup> (string \<rightharpoonup> (string \<times> entry option) list)) \<Rightarrow> (string \<times> string) list
     \<Rightarrow> string \<Rightarrow> bool \<Rightarrow> string \<Rightarrow> (string \<rightharpoonup> stat_conf) \<Rightarrow> string list option
     \<Rightarrow> py_error + (string \<times> (string \<times> stat_entry) list) list" where
  "calc_stats X ddict [] stat pool chunk_dim stats_config regions = Inr []"
| "calc_stats X ddict ((v, f) # vv) stat pool chunk_dim stats_config regions =
     (case ddict f of
        None \<Rightarrow> Inl KeyError
      | Some dv \<Rightarrow>
     (case dv v of
        None \<Rightarrow> Inl KeyError
      | Some ps \<Rightarrow>
     (case calc_stats_participants X ps v stat pool chunk_dim stats_config regions of
        Inl e \<Rightarrow> Inl e
      | Inr res \<Rightarrow>
     (case calc_stats X ddict vv stat pool chunk_dim stats_config regions of
        Inl e \<Rightarrow> Inl e
      | Inr rest \<Rightarrow> Inr ((v, res) # rest)))))"


text \<open>The participants of a variable that have data, in order.\<close>

definition with_data :: "(string \<times> entry option) list \<Rightarrow> (string \<times> entry) list" where
  "with_data ps = concat (map (\<lambda>(m, eo). case eo of None \<Rightarrow> [] | Some en \<Rightarrow> [(m, en)]) ps)"

text \<open>
  The number of time steps of the variable, and a mask of the extents of its grid.
\<close>

definition time_size :: "dataset \<Rightarrow> nat" where
  "time_size data = (case map snd (dims data) of [tn, ny, nx] \<Rightarrow> tn | _ \<Rightarrow> 0)"

definition mask_fits :: "bool list list \<Rightarrow> dataset \<Rightarrow> bool" where
  "mask_fits m data =
     (case map snd (dims data) of
        [tn, ny, nx] \<Rightarrow> length m = ny \<and> list_all (\<lambda>row. length row = nx) m
      | _ \<Rightarrow> False)"

text \<open>
  What the loop body needs to go through for one participant: its input can be
  prepared, and, where regions are configured, the mask of every region has the
  extents of the grid it is applied to (the data with \<open>pool\<close>, the statistic of the
  domain without).
\<close>

definition stats_ready ::
  "ext \<Rightarrow> dataset \<Rightarrow> string \<Rightarrow> string \<Rightarrow> bool \<Rightarrow> string \<Rightarrow> (string \<rightharpoonup> stat_conf)
     \<Rightarrow> string list option \<Rightarrow> bool" where
  "stats_ready X indata0 v stat pool chunk_dim stats_config regions =
     (case calc_stats_input X indata0 stat chunk_dim stats_config of
        Inl e \<Rightarrow> False
      | Inr data \<Rightarrow>
          (case regions of
             Some (r0 # rs) \<Rightarrow>
               list_all (\<lambda>r. mask_fits (reg_mask X (lon data) (lat data) r)
                                 (if pool then data else calc_statistics X data v stat))
                 (r0 # rs)
           | _ \<Rightarrow> True))"


section \<open>Test inputs\<close>

text \<open>
  The inputs of the tests the specification names: a field of 1000 by 1000 cells in
  one block, a series of 501 time steps in 501 blocks, and a small dataset of two time
  steps on a grid of one row and two columns.
\<close>

definition grid_1000 :: dataset where
  "grid_1000 =
     \<lparr>dims = [(''time'', 1), (''y'', 1000), (''x'', 1000)],
      chunks = [(''time'', [1]), (''y'', [1000]), (''x'', [1000])],
      attrs = [], var_attrs = [], n_data_vars = 1,
      time = [0],
      lon = Coord1D (map real [0..<1000]), lat = Coord1D (map real [0..<1000]),
      lon_dims = [''x''], lat_dims = [''y''],
      vals = [replicate 1000 (replicate 1000 (Val 0))]\<rparr>"

definition steps_501 :: dataset where
  "steps_501 =
     \<lparr>dims = [(''time'', 501), (''y'', 1), (''x'', 1)],
      chunks = [(''time'', replicate 501 1), (''y'', [1]), (''x'', [1])],
      attrs = [], var_attrs = [], n_data_vars = 1,
      time = map int [0..<501],
      lon = Coord1D [0], lat = Coord1D [0],
      lon_dims = [''x''], lat_dims = [''y''],
      vals = replicate 501 [[Val 0]]\<rparr>"

definition small_dataset :: dataset where
  "small_dataset =
     \<lparr>dims = [(''time'', 2), (''lat'', 1), (''lon'', 2)],
      chunks = [(''time'', [1, 1]), (''lat'', [1]), (''lon'', [2])],
      attrs = [(''domain'', ''EUR-11'')], var_attrs = [(''units'', ''mm'')], n_data_vars = 1,
      time = [0, 3600],
      lon = Coord1D [10, 11], lat = Coord1D [50],
      lon_dims = [''lon''], lat_dims = [''lat''],
      vals = [[[Val 1, Val 2]], [[Val 3, Val 4]]]\<rparr>"

text \<open>A series of three time steps for the preprocessing.\<close>

definition small_series :: timeseries where
  "small_series =
     \<lparr>ts_time = [0, 3600, 7200],
      ts_vals = [[[Val 1, Val 2]], [[Val 3, Val 5]], [[Val 6, Val 9]]]\<rparr>"

text \<open>
  For the regridding tests: the participants \<open>mod\<close>, \<open>obs\<close> and \<open>obs2\<close> on the
  small dataset, a target grid of the same extents, the identity weights, and weights
  whose second target cell overlaps no source cell.
\<close>

definition small_target :: grid where
  "small_target = \<lparr>g_lon = Coord1D [20, 21], g_lat = Coord1D [60]\<rparr>"

definition identity_weights :: spmatrix where
  "identity_weights = \<lparr>n_rows = 2, n_cols = 2, rows = [[(0, Val 1)], [(1, Val 1)]]\<rparr>"


definition small_dd :: "string \<rightharpoonup> entry" where
  "small_dd =
     [''mod'' \<mapsto> \<lparr>e_data = small_dataset,
                      e_grid = \<lparr>g_lon = Coord1D [10, 11], g_lat = Coord1D [50]\<rparr>,
                      e_gridname = ''grid_MOD_EUR-11''\<rparr>,
      ''obs'' \<mapsto> \<lparr>e_data = small_dataset\<lparr>lon := g_lon small_target, lat := g_lat small_target\<rparr>,
                      e_grid = small_target,
                      e_gridname = ''grid_OBS''\<rparr>,
      ''obs2'' \<mapsto> \<lparr>e_data = small_dataset,
                       e_grid = \<lparr>g_lon = Coord1D [10, 11], g_lat = Coord1D [50]\<rparr>,
                       e_gridname = ''grid_OBS2''\<rparr>]"

text \<open>
  For the statistics tests. The statistic is the total of the valid cells of the first
  time step, written to each of them. The region \<open>west\<close> is the first column of the
  grid, any other the second. \<open>where(mask, drop=True)\<close> blanks the cells outside the
  mask and drops the time steps, rows and columns that lie outside altogether.
  Resampling keeps the first time step. Frequencies are given with their count
  (\<open>1H\<close>); pandas reads no bare \<open>H\<close>.
\<close>

definition one_block :: "(string \<times> nat) list \<Rightarrow> (string \<times> nat list) list" where
  "one_block ds = map (\<lambda>(k, n). (k, [n])) ds"

definition valid_total :: "fval list list list \<Rightarrow> real" where
  "valid_total v = sum_list (map (\<lambda>c. case c of Val a \<Rightarrow> a | NaN \<Rightarrow> 0) (concat (concat v)))"

definition with_time_steps :: "dataset \<Rightarrow> int list \<Rightarrow> fval list list list \<Rightarrow> dataset" where
  "with_time_steps d tm v =
     (let ds = map (\<lambda>(k, n). if k = ''time'' then (k, length v) else (k, n)) (dims d)
      in d\<lparr>dims := ds, chunks := one_block ds, time := tm, vals := v\<rparr>)"

definition test_statistic :: "dataset \<Rightarrow> string \<Rightarrow> string \<Rightarrow> dataset" where
  "test_statistic d v s =
     (let first = take 1 (vals d);
          total = valid_total first
      in with_time_steps d (take 1 (time d))
           (map (map (map (\<lambda>c. case c of Val a \<Rightarrow> Val total | NaN \<Rightarrow> NaN))) first))"

definition pick :: "bool list \<Rightarrow> 'a list \<Rightarrow> 'a list" where
  "pick ks xs = map snd (filter fst (zip ks xs))"

definition pick_coord :: "bool list \<Rightarrow> bool list \<Rightarrow> bool \<Rightarrow> coord \<Rightarrow> coord" where
  "pick_coord ky kx on_x c =
     (case c of
        Coord1D l \<Rightarrow> Coord1D (pick (if on_x then kx else ky) l)
      | Coord2D a \<Rightarrow> Coord2D (pick ky (map (pick kx) a)))"

definition test_where_drop :: "dataset \<Rightarrow> bool list list list \<Rightarrow> dataset" where
  "test_where_drop d cond =
     (case dims d of
        [(td, tn), (yd, ny), (xd, nx)] \<Rightarrow>
          let kt = map (list_ex (list_ex (\<lambda>b. b))) cond;
              ky = map (\<lambda>j. list_ex (\<lambda>f. list_ex (\<lambda>b. b) (f ! j)) cond) [0..<ny];
              kx = map (\<lambda>i. list_ex (list_ex (\<lambda>row. row ! i)) cond) [0..<nx];
              blanked = map2 (map2 (map2 (\<lambda>b x. if b then x else NaN))) cond (vals d);
              v = pick kt (map (\<lambda>f. pick ky (map (pick kx) f)) blanked);
              ds = [(td, length (pick kt (time d))), (yd, length (filter (\<lambda>b. b) ky)),
                    (xd, length (filter (\<lambda>b. b) kx))]
          in d\<lparr>dims := ds, chunks := one_block ds, time := pick kt (time d),
               lon := pick_coord ky kx True (lon d), lat := pick_coord ky kx False (lat d),
               vals := v\<rparr>
      | _ \<Rightarrow> d)"

definition test_ext :: ext where
  "test_ext =
     \<lparr>calc_statistics = test_statistic,
      reg_mask = (\<lambda>lo la r. if r = ''west'' then [[True, False]] else [[False, True]]),
      where_drop = test_where_drop,
      resample = (\<lambda>d f r. with_time_steps d (take 1 (time d)) (take 1 (vals d))),
      total_seconds = (\<lambda>f. if f = ''1H'' then Inr 3600
                           else if f = ''3H'' then Inr 10800
                           else if f = ''1D'' then Inr 86400
                           else Inl ValueError)\<rparr>"

text \<open>
  A statistic that asks for hourly data; datasets of three variables with hourly
  steps, given by the values of the first; and a variable with two participants that
  have data and one that has none.
\<close>

definition test_config :: "string \<rightharpoonup> stat_conf" where
  "test_config = [''total'' \<mapsto> \<lparr>resample_resolution = Some (''1H'', ''mean'')\<rparr>]"

definition hourly_dataset :: "real \<Rightarrow> real \<Rightarrow> dataset" where
  "hourly_dataset a b =
     small_dataset\<lparr>n_data_vars := 3, vals := [[[Val a, Val b]], [[Val 3, Val 4]]]\<rparr>"

definition test_ddict :: "string \<rightharpoonup> (string \<rightharpoonup> (string \<times> entry option) list)" where
  "test_ddict =
     [''1H'' \<mapsto> [''pr'' \<mapsto>
        [(''mod'', Some \<lparr>e_data = hourly_dataset 1 2,
                          e_grid = \<lparr>g_lon = Coord1D [10, 11], g_lat = Coord1D [50]\<rparr>,
                          e_gridname = ''grid_MOD_EUR-11''\<rparr>),
         (''mod2'', None),
         (''obs'', Some \<lparr>e_data = hourly_dataset 5 6,
                          e_grid = \<lparr>g_lon = Coord1D [10, 11], g_lat = Coord1D [50]\<rparr>,
                          e_gridname = ''grid_OBS''\<rparr>)]]]"


section \<open>Properties of \<open>manage_chunks\<close>\<close>

lemma np_round_between:
  assumes "of_int k < x" "x < of_int k + 1 / 2"
  shows "np_round x = k"
proof -
  have "\<lfloor>x\<rfloor> = k" using assms by (intro floor_unique) auto
  then show ?thesis using assms by (simp add: np_round_def Let_def)
qed

lemma np_round_ge:
  assumes "of_int k \<le> x"
  shows "k \<le> np_round x"
proof -
  have "k \<le> \<lfloor>x\<rfloor>" using assms by (simp add: le_floor_iff)
  then show ?thesis by (auto simp: np_round_def Let_def)
qed

text \<open>
  On a square grid the quotient is \<open>sqrt 500\<close>, about 22.36, whatever the size of the
  grid: the chunk edge is 22.
\<close>

lemma sqrt_500_bounds: "22 < sqrt 500" "sqrt 500 < 45 / 2"
proof -
  show "22 < sqrt 500" by (rule real_less_rsqrt) simp
  show "sqrt 500 < 45 / 2" by (rule real_less_lsqrt) (simp_all add: power2_eq_square)
qed

lemma c_size_square:
  assumes "0 < n"
  shows "c_size n n = 22"
proof -
  have "sqrt (real (n * n) / 500) = real n / sqrt 500"
    by (simp add: real_sqrt_divide real_sqrt_mult)
  then have "real (max n n) / sqrt (real (n * n) / 500) = sqrt 500"
    using assms by simp
  moreover have "np_round (sqrt 500) = 22"
    using np_round_between[of 22 "sqrt 500"] sqrt_500_bounds by simp
  ultimately show ?thesis by (simp add: c_size_def Let_def)
qed

lemma c_size_1000: "c_size 1000 1000 = 22"
  by (rule c_size_square) simp

text \<open>In the space mode the chunk edge is never below 22, whatever the grid.\<close>

lemma c_size_ge_22:
  assumes "0 < xsize" "0 < ysize"
  shows "22 \<le> c_size xsize ysize"
proof -
  define m where "m = real (max xsize ysize)"
  define p where "p = real (xsize * ysize)"
  have m1: "1 \<le> m" using assms by (simp add: m_def)
  have ppos: "0 < p" using assms by (simp add: p_def)
  have "real xsize * real ysize \<le> m * m"
    unfolding m_def by (intro mult_mono) auto
  then have pm: "p \<le> m * m" by (simp add: p_def)
  have "sqrt (p / 500) \<le> m / 22"
  proof (rule real_le_lsqrt)
    show "0 \<le> m / 22" using m1 by simp
    have "p / 500 \<le> m * m / 500" using pm by (simp add: divide_right_mono)
    also have "\<dots> \<le> (m / 22)\<^sup>2" using m1 by (simp add: power2_eq_square field_simps)
    finally show "p / 500 \<le> (m / 22)\<^sup>2" .
  qed
  moreover have "0 < sqrt (p / 500)" using ppos by simp
  ultimately have "22 \<le> m / sqrt (p / 500)"
    by (simp add: field_simps)
  then have "22 \<le> np_round (m / sqrt (p / 500))"
    using np_round_ge[of 22] by simp
  then show ?thesis by (simp add: c_size_def Let_def m_def p_def)
qed

lemma rchunk_size_501: "rchunk_size 501 = 1"
  using np_round_between[of 1 "501 / 500"] by (simp add: rchunk_size_def)

lemma rchunk_size_pos:
  assumes "500 \<le> n"
  shows "0 < rchunk_size n"
proof -
  have "1 \<le> np_round (real n / 500)"
    using np_round_ge[of 1 "real n / 500"] assms by simp
  then show ?thesis by (simp add: rchunk_size_def)
qed

lemma sum_blockdims: "0 < c \<Longrightarrow> sum_list (blockdims c n) = n"
  using div_mult_mod_eq[of n c] by (auto simp add: blockdims_def sum_list_replicate)

lemma pos_blockdims: "0 < c \<Longrightarrow> 0 < n \<Longrightarrow> list_all (\<lambda>b. 0 < b) (blockdims c n)"
  by (auto simp add: blockdims_def list_all_iff)

lemma concat_split_sizes: "sum_list cs = length xs \<Longrightarrow> concat (split_sizes cs xs) = xs"
proof (induction cs arbitrary: xs)
  case Nil
  then show ?case by simp
next
  case (Cons c cs)
  then have "sum_list cs = length (drop c xs)" by simp
  with Cons.IH have "concat (split_sizes cs (drop c xs)) = drop c xs" by blast
  then show ?case by simp
qed

lemma assemble_group:
  assumes ct: "sum_list ct = length v"
    and cy: "list_all (\<lambda>fr. length fr = sum_list cy \<and>
                              list_all (\<lambda>row. length row = sum_list cx) fr) v"
  shows "assemble (map (map (\<lambda>fr. split_sizes cy (map (split_sizes cx) fr)))
                       (split_sizes ct v)) = v"
proof -
  have fr: "map concat (concat (split_sizes cy (map (split_sizes cx) fr))) = fr"
    if "fr \<in> set v" for fr
  proof -
    from that cy have l: "length fr = sum_list cy"
      and r: "\<forall>row\<in>set fr. length row = sum_list cx"
      by (auto simp: list_all_iff)
    have "concat (split_sizes cy (map (split_sizes cx) fr)) = map (split_sizes cx) fr"
      using l by (simp add: concat_split_sizes)
    moreover have "map concat (map (split_sizes cx) fr) = fr"
      using r by (simp add: concat_split_sizes map_idI)
    ultimately show ?thesis by simp
  qed
  have "assemble (map (map (\<lambda>fr. split_sizes cy (map (split_sizes cx) fr))) (split_sizes ct v))
      = map (\<lambda>fr. map concat (concat (split_sizes cy (map (split_sizes cx) fr))))
            (concat (split_sizes ct v))"
    by (simp add: assemble_def map_concat comp_def)
  also have "\<dots> = map (\<lambda>fr. map concat (concat (split_sizes cy (map (split_sizes cx) fr)))) v"
    using ct by (simp add: concat_split_sizes)
  also have "\<dots> = v" using fr by (simp add: map_idI)
  finally show ?thesis .
qed

lemma wf_datasetE:
  assumes "wf_dataset d"
  obtains tn yd ny xd nx bt bly blx where
    "dims d = [(''time'', tn), (yd, ny), (xd, nx)]"
    "chunks d = [(''time'', bt), (yd, bly), (xd, blx)]"
    "yd \<in> set spcdim_y" "xd \<in> set spcdim_x"
    "0 < tn" "0 < ny" "0 < nx"
    "length (time d) = tn" "length (vals d) = tn"
    "list_all (\<lambda>fr. length fr = ny \<and> list_all (\<lambda>row. length row = nx) fr) (vals d)"
    "sum_list bt = tn" "sum_list bly = ny" "sum_list blx = nx"
    "list_all (\<lambda>b. 0 < b) bt" "list_all (\<lambda>b. 0 < b) bly" "list_all (\<lambda>b. 0 < b) blx"
proof -
  from assms have w: "wf_shape (dims d) (time d) (vals d)"
    and c: "list_all2 (\<lambda>(k, bs) (k', n). k = k' \<and> sum_list bs = n \<and> list_all (\<lambda>b. 0 < b) bs)
            (chunks d) (dims d)"
    by (simp_all add: wf_dataset_def)
  from w have "\<exists>tn yd ny xd nx. dims d = [(''time'', tn), (yd, ny), (xd, nx)] \<and>
      yd \<in> set spcdim_y \<and> xd \<in> set spcdim_x \<and> 0 < tn \<and> 0 < ny \<and> 0 < nx \<and>
      length (time d) = tn \<and> length (vals d) = tn \<and>
      list_all (\<lambda>fr. length fr = ny \<and> list_all (\<lambda>row. length row = nx) fr) (vals d)"
    by (auto elim!: wf_shape.elims(2))
  then obtain tn yd ny xd nx where
    d: "dims d = [(''time'', tn), (yd, ny), (xd, nx)]"
    and rest: "yd \<in> set spcdim_y" "xd \<in> set spcdim_x"
    "0 < tn" "0 < ny" "0 < nx"
    "length (time d) = tn" "length (vals d) = tn"
    "list_all (\<lambda>fr. length fr = ny \<and> list_all (\<lambda>row. length row = nx) fr) (vals d)"
    by blast
  from c obtain bt bly blx where
    "chunks d = [(''time'', bt), (yd, bly), (xd, blx)]"
    "sum_list bt = tn" "sum_list bly = ny" "sum_list blx = nx"
    "list_all (\<lambda>b. 0 < b) bt" "list_all (\<lambda>b. 0 < b) bly" "list_all (\<lambda>b. 0 < b) blx"
    unfolding d by (auto simp: list_all2_Cons2)
  with d rest show thesis using that by blast
qed

lemma dim_names_distinct:
  assumes "yd \<in> set spcdim_y" "xd \<in> set spcdim_x"
  shows "yd \<noteq> ''time''" "xd \<noteq> ''time''" "xd \<noteq> yd"
    "yd \<notin> set spcdim_x" "xd \<notin> set spcdim_y"
  using assms by (auto simp: spcdim_x_def spcdim_y_def)

lemma assemble_blocks_of:
  assumes "wf_dataset d"
  shows "assemble (blocks_of d) = vals d"
proof -
  from assms obtain tn yd ny xd nx bt bly blx where
    c: "chunks d = [(''time'', bt), (yd, bly), (xd, blx)]"
    and l: "length (vals d) = tn"
    "list_all (\<lambda>fr. length fr = ny \<and> list_all (\<lambda>row. length row = nx) fr) (vals d)"
    and s: "sum_list bt = tn" "sum_list bly = ny" "sum_list blx = nx"
    by (rule wf_datasetE)
  have "blocks_of d = map (map (\<lambda>fr. split_sizes bly (map (split_sizes blx) fr)))
            (split_sizes bt (vals d))"
    by (simp add: blocks_of_def c)
  then show ?thesis
    using assemble_group[of bt "vals d" bly blx] l s by simp
qed

lemma new_blocks_ok:
  assumes spec: "list_all (\<lambda>(k, c). map_of ds k \<noteq> None \<and> 0 < c) spec"
    and old: "map_of cs k = Some bs" "sum_list bs = n" "list_all (\<lambda>b. 0 < b) bs"
    and n: "0 < n"
  shows "sum_list (case map_of spec k of Some c \<Rightarrow> blockdims c n
                   | None \<Rightarrow> (case map_of cs k of Some bs \<Rightarrow> bs | None \<Rightarrow> [n])) = n
       \<and> list_all (\<lambda>b. 0 < b) (case map_of spec k of Some c \<Rightarrow> blockdims c n
                   | None \<Rightarrow> (case map_of cs k of Some bs \<Rightarrow> bs | None \<Rightarrow> [n]))"
proof (cases "map_of spec k")
  case None
  then show ?thesis using old by simp
next
  case (Some c)
  then have "(k, c) \<in> set spec" by (rule map_of_SomeD)
  with spec have "0 < c" by (auto simp: list_all_iff)
  then show ?thesis using Some n by (simp add: sum_blockdims pos_blockdims)
qed

lemma xr_chunk_wf:
  assumes wf: "wf_dataset d"
    and spec: "list_all (\<lambda>(k, c). map_of (dims d) k \<noteq> None \<and> 0 < c) spec"
  shows "\<exists>out. xr_chunk d spec = Inr out \<and> out = d\<lparr>chunks := chunks out\<rparr> \<and> wf_dataset out"
proof -
  from wf obtain tn yd ny xd nx bt bly blx where
    d: "dims d = [(''time'', tn), (yd, ny), (xd, nx)]"
    and c: "chunks d = [(''time'', bt), (yd, bly), (xd, blx)]"
    and nm: "yd \<in> set spcdim_y" "xd \<in> set spcdim_x"
    and pos: "0 < tn" "0 < ny" "0 < nx"
    and s: "sum_list bt = tn" "sum_list bly = ny" "sum_list blx = nx"
    and p: "list_all (\<lambda>b. 0 < b) bt" "list_all (\<lambda>b. 0 < b) bly" "list_all (\<lambda>b. 0 < b) blx"
    by (rule wf_datasetE)
  note ne = dim_names_distinct(1-3)[OF nm]
  define F where "F = (\<lambda>k n. case map_of spec k of Some c \<Rightarrow> blockdims c n
                   | None \<Rightarrow> (case map_of (chunks d) k of Some bs \<Rightarrow> bs | None \<Rightarrow> [n]))"
  have e1: "\<not> list_ex (\<lambda>(k, c). map_of (dims d) k = None) spec"
    using spec by (auto simp: list_all_iff list_ex_iff)
  have e2: "\<not> list_ex (\<lambda>(k, c). c = 0 \<and> map_of (dims d) k \<noteq> Some 0) spec"
    using spec by (auto simp: list_all_iff list_ex_iff)
  have out: "xr_chunk d spec =
      Inr (d\<lparr>chunks := [(''time'', F ''time'' tn), (yd, F yd ny), (xd, F xd nx)]\<rparr>)"
    unfolding xr_chunk_def F_def using e1 e2 by (simp add: d)
  have t: "sum_list (F ''time'' tn) = tn \<and> list_all (\<lambda>b. 0 < b) (F ''time'' tn)"
    unfolding F_def by (rule new_blocks_ok[OF spec _ s(1) p(1) pos(1)]) (simp add: c)
  have y: "sum_list (F yd ny) = ny \<and> list_all (\<lambda>b. 0 < b) (F yd ny)"
    unfolding F_def by (rule new_blocks_ok[OF spec _ s(2) p(2) pos(2)]) (simp add: c ne)
  have x: "sum_list (F xd nx) = nx \<and> list_all (\<lambda>b. 0 < b) (F xd nx)"
    unfolding F_def by (rule new_blocks_ok[OF spec _ s(3) p(3) pos(3)]) (simp add: c ne)
  have "wf_dataset (d\<lparr>chunks := [(''time'', F ''time'' tn), (yd, F yd ny), (xd, F xd nx)]\<rparr>)"
    using wf t y x by (simp add: wf_dataset_def d)
  with out show ?thesis by simp
qed

lemma first_dim_in_wf:
  assumes "dims d = [(''time'', tn), (yd, ny), (xd, nx)]"
    "yd \<in> set spcdim_y" "xd \<in> set spcdim_x"
  shows "first_dim_in d spcdim_x = Inr (xd, nx)" "first_dim_in d spcdim_y = Inr (yd, ny)"
  using assms dim_names_distinct(4,5)[OF assms(2,3)]
  by (auto simp: first_dim_in_def) (simp_all add: spcdim_x_def spcdim_y_def)

text \<open>
  On a well-formed dataset \<open>manage_chunks\<close> succeeds in either mode, and its result is
  the input with new block sizes and again well-formed.
\<close>

lemma manage_chunks_wf:
  assumes wf: "wf_dataset d"
  shows "\<exists>out. manage_chunks d chunk_dim = Inr out \<and> out = d\<lparr>chunks := chunks out\<rparr> \<and>
           wf_dataset out"
proof -
  from wf obtain tn yd ny xd nx bt bly blx where
    d: "dims d = [(''time'', tn), (yd, ny), (xd, nx)]"
    and c: "chunks d = [(''time'', bt), (yd, bly), (xd, blx)]"
    and nm: "yd \<in> set spcdim_y" "xd \<in> set spcdim_x"
    and pos: "0 < tn" "0 < ny" "0 < nx"
    and lt: "length (time d) = tn"
    and s: "sum_list bt = tn" and p: "list_all (\<lambda>b. 0 < b) bt"
    by (rule wf_datasetE)
  show ?thesis
  proof (cases "chunk_dim = ''space''")
    case True
    have cs: "0 < c_size nx ny" using c_size_ge_22[OF pos(3) pos(2)] by simp
    have "manage_chunks d chunk_dim = xr_chunk d
                    [(''time'', length (time d)), (xd, c_size nx ny), (yd, c_size nx ny)]"
      using True pos by (simp add: manage_chunks_def first_dim_in_wf[OF d nm])
    moreover have "list_all (\<lambda>(k, c). map_of (dims d) k \<noteq> None \<and> 0 < c)
         [(''time'', length (time d)), (xd, c_size nx ny), (yd, c_size nx ny)]"
      using cs pos lt by (simp add: d)
    ultimately show ?thesis using xr_chunk_wf[OF wf] by simp
  next
    case False
    show ?thesis
    proof (cases "length bt > 500")
      case True
      have "length bt \<le> sum_list bt" using p
        by (induction bt) (auto simp: list_all_iff)
      then have "500 \<le> tn" using True s by simp
      then have r: "0 < rchunk_size tn" by (rule rchunk_size_pos)
      have "manage_chunks d chunk_dim = xr_chunk d [(''time'', rchunk_size (length (time d)))]"
        using False True by (simp add: manage_chunks_def c)
      moreover have "list_all (\<lambda>(k, c). map_of (dims d) k \<noteq> None \<and> 0 < c)
           [(''time'', rchunk_size (length (time d)))]"
        using r lt by (simp add: d)
      ultimately show ?thesis using xr_chunk_wf[OF wf] by simp
    next
      case few: False
      then have "manage_chunks d chunk_dim = Inr d"
        using False by (simp add: manage_chunks_def c)
      then show ?thesis using wf by simp
    qed
  qed
qed

lemma wf_small_dataset: "wf_dataset small_dataset"
  by (simp add: wf_dataset_def small_dataset_def spcdim_x_def spcdim_y_def)

lemma xr_chunk_only_chunks: "xr_chunk d spec = Inr out \<Longrightarrow> out = d\<lparr>chunks := chunks out\<rparr>"
  by (auto simp: xr_chunk_def split: if_splits)

lemma manage_chunks_only_chunks:
  assumes "manage_chunks d chunk_dim = Inr out"
  shows "out = d\<lparr>chunks := chunks out\<rparr>"
proof (cases "chunk_dim = ''space''")
  case True
  with assms obtain spec where "xr_chunk d spec = Inr out"
    by (auto simp: manage_chunks_def split: sum.splits prod.splits if_splits)
  then show ?thesis by (rule xr_chunk_only_chunks)
next
  case False
  with assms have "out = d \<or> (\<exists>spec. xr_chunk d spec = Inr out)"
    by (auto simp: manage_chunks_def split: option.splits if_splits)
  then show ?thesis using xr_chunk_only_chunks by auto
qed

text \<open>
  C5. Re-chunking changes neither the values nor their order. Whatever the dataset and
  the chunk mode, a dataset returned by \<open>manage_chunks\<close> differs from the input in its
  block sizes only. On a well-formed dataset \<open>manage_chunks\<close> does return in either
  mode, the new block sizes again cover every dimension, and the blocks of the result,
  put back in order, are the values of the input.
\<close>

theorem manage_chunks_preserves_values:
  "(\<forall>out. manage_chunks d chunk_dim = Inr out \<longrightarrow>
      out = d\<lparr>chunks := chunks out\<rparr> \<and> vals out = vals d \<and> time out = time d) \<and>
   (wf_dataset d \<longrightarrow>
      (\<exists>out. manage_chunks d chunk_dim = Inr out \<and> wf_dataset out \<and>
             assemble (blocks_of out) = vals d))"
proof (intro conjI allI impI)
  fix out assume m: "manage_chunks d chunk_dim = Inr out"
  then show o: "out = d\<lparr>chunks := chunks out\<rparr>" by (rule manage_chunks_only_chunks)
  have "vals (d\<lparr>chunks := chunks out\<rparr>) = vals d" "time (d\<lparr>chunks := chunks out\<rparr>) = time d"
    by simp_all
  with o show "vals out = vals d" "time out = time d" by simp_all
next
  assume wf: "wf_dataset d"
  from manage_chunks_wf[OF wf] obtain out where
    o: "manage_chunks d chunk_dim = Inr out" "out = d\<lparr>chunks := chunks out\<rparr>" "wf_dataset out"
    by blast
  have "vals (d\<lparr>chunks := chunks out\<rparr>) = vals d" by simp
  with o(2) have "vals out = vals d" by simp
  with assemble_blocks_of[OF o(3)] o
  show "\<exists>out. manage_chunks d chunk_dim = Inr out \<and> wf_dataset out \<and>
             assemble (blocks_of out) = vals d" by auto
qed

theorem manage_chunks_preserves_values_witness:
  "wf_dataset small_dataset \<and>
   (\<exists>out. manage_chunks small_dataset ''space'' = Inr out \<and>
      vals out = vals small_dataset \<and> time out = time small_dataset \<and>
      assemble (blocks_of out) = vals small_dataset) \<and>
   (\<exists>out. manage_chunks small_dataset ''time'' = Inr out \<and>
      vals out = vals small_dataset \<and> time out = time small_dataset \<and>
      assemble (blocks_of out) = vals small_dataset)"
  using wf_small_dataset manage_chunks_preserves_values[of small_dataset "''space''"]
    manage_chunks_preserves_values[of small_dataset "''time''"]
  by auto

text \<open>
  C1. The space mode at the grid of 1000 by 1000 cells named by the specification: the
  chunk edge is 22, both spatial dimensions are cut into 46 blocks, and the dataset
  has 2116 blocks, more than the maximum of 500. The quotient, about 22.36, is far
  from a half, so the rounding error of the floating-point square root and division
  cannot change the edge.
\<close>

theorem manage_chunks_space_1000:
  "\<exists>out. manage_chunks grid_1000 ''space'' = Inr out \<and>
     chunks out = [(''time'', [1]), (''y'', replicate 45 22 @ [10]),
                   (''x'', replicate 45 22 @ [10])] \<and>
     n_chunks out = 2116 \<and> 500 < n_chunks out"
  by (simp add: manage_chunks_def first_dim_in_def spcdim_x_def spcdim_y_def grid_1000_def
      c_size_1000 xr_chunk_def blockdims_def n_chunks_def)

text \<open>
  The time mode keeps a dataset of at most 500 blocks along time as it is, and
  re-chunks any other to blocks of \<open>round(n_time/500)\<close> steps.
\<close>

lemma manage_chunks_time_few_blocks:
  assumes "chunk_dim \<noteq> ''space''" "map_of (chunks d) ''time'' = Some tchunks"
    "length tchunks \<le> 500"
  shows "manage_chunks d chunk_dim = Inr d"
  using assms by (simp add: manage_chunks_def)

lemma manage_chunks_time_many_blocks:
  assumes "chunk_dim \<noteq> ''space''" "map_of (chunks d) ''time'' = Some tchunks"
    "500 < length tchunks"
  shows "manage_chunks d chunk_dim = xr_chunk d [(''time'', rchunk_size (length (time d)))]"
  using assms by (simp add: manage_chunks_def)

text \<open>
  C7. The time mode at 501 time steps held in 501 blocks: more than 500 blocks trigger
  the re-chunking, the new block length is \<open>round(501/500) = 1\<close>, and the result has
  501 blocks again.
\<close>

theorem manage_chunks_time_501:
  "\<exists>out tchunks. manage_chunks steps_501 ''time'' = Inr out \<and>
     map_of (chunks out) ''time'' = Some tchunks \<and>
     length tchunks = 501 \<and> 500 < length tchunks"
  by (simp add: manage_chunks_def steps_501_def rchunk_size_501 xr_chunk_def blockdims_def)


section \<open>Properties of the regridding\<close>

lemma length_concat_equal:
  "\<forall>x\<in>set xs. length x = n \<Longrightarrow> length (concat xs) = length xs * n"
  by (induction xs) auto

lemma nth_concat_equal:
  assumes "\<forall>x\<in>set xs. length x = n" "i < length xs" "k < n"
  shows "concat xs ! (i * n + k) = xs ! i ! k"
  using assms
proof (induction xs arbitrary: i)
  case Nil
  then show ?case by simp
next
  case (Cons x xs)
  show ?case
  proof (cases i)
    case 0
    then show ?thesis using Cons.prems by (simp add: nth_append)
  next
    case (Suc i')
    then have "concat xs ! (i' * n + k) = xs ! i' ! k"
      using Cons by simp
    then show ?thesis using Cons.prems Suc by (simp add: nth_append)
  qed
qed

lemma take_drop_concat_equal:
  assumes "\<forall>x\<in>set xs. length x = n" "i < length xs"
  shows "take n (drop (i * n) (concat xs)) = xs ! i"
  using assms
proof (induction xs arbitrary: i)
  case Nil
  then show ?case by simp
next
  case (Cons x xs)
  show ?case
  proof (cases i)
    case 0
    then show ?thesis using Cons.prems by simp
  next
    case (Suc i')
    then have "take n (drop (i' * n) (concat xs)) = xs ! i'"
      using Cons by simp
    then show ?thesis using Cons.prems Suc by simp
  qed
qed

lemma chop_concat:
  assumes "\<forall>x\<in>set xs. length x = n"
  shows "chop n (length xs) (concat xs) = xs"
  by (rule nth_equalityI) (simp_all add: chop_def take_drop_concat_equal[OF assms])

lemma row_dot_cong:
  assumes "\<forall>(c, w)\<in>set row. f c = g c"
  shows "row_dot row f = row_dot row g"
proof -
  have "foldl (\<lambda>acc (c, w). fadd acc (fmul w (f c))) a row
      = foldl (\<lambda>acc (c, w). fadd acc (fmul w (g c))) a row" for a
    using assms by (induction row arbitrary: a) auto
  then show ?thesis by (simp add: row_dot_def)
qed

lemma length_concat_field:
  assumes "length fr = ny" "list_all (\<lambda>row. length row = nx) fr"
  shows "length (concat fr) = ny * nx"
  using assms length_concat_equal[of fr nx] by (simp add: list_all_iff)

lemma nd_T_buf_nth:
  assumes "c < C" "j < R"
  shows "concat (map (\<lambda>c. map (\<lambda>j. f j c) [0..<R]) [0..<C]) ! (c * R + j) = f j c"
proof -
  have "\<forall>x\<in>set (map (\<lambda>c. map (\<lambda>j. f j c) [0..<R]) [0..<C]). length x = R" by simp
  from nth_concat_equal[OF this, of c j] assms show ?thesis by simp
qed

lemma map_upt_nth: "map (\<lambda>i. g (xs ! i)) [0..<length xs] = map g xs"
  by (rule nth_equalityI) simp_all

lemma rgr_calc_block:
  fixes A :: spmatrix and blk :: "fval list list list"
  assumes sh: "\<forall>fr\<in>set blk. length fr = ny \<and> list_all (\<lambda>row. length row = nx) fr"
    and pos: "0 < ny * nx"
    and A: "wf_spmatrix A" "n_cols A = ny * nx" "n_rows A = Ny_out * Nx_out"
  shows "\<exists>out. rgr_calc (block_array ny nx blk) A (Ny_out, Nx_out) = Inr out \<and>
           array_frames out = map (apply_matrix A (Ny_out, Nx_out)) blk"
proof -
  define N where "N = ny * nx"
  define T where "T = length blk"
  define R where "R = n_rows A"
  define b where "b = concat (map concat blk)"
  have lenfr: "\<forall>x\<in>set (map concat blk). length x = N"
    using sh length_concat_field by (auto simp: N_def)
  have lb: "length b = T * N"
    unfolding b_def T_def using length_concat_equal[OF lenfr] by simp
  have bn: "b ! (j * N + c) = concat (blk ! j) ! c" if "j < T" "c < N" for j c
    unfolding b_def using nth_concat_equal[OF lenfr, of j c] that by (simp add: T_def)
  have lr: "length (rows A) = R" using A(1) by (simp add: wf_spmatrix_def R_def)
  have cols: "\<forall>row\<in>set (rows A). \<forall>(c, w)\<in>set row. c < N"
    using A(1,2) by (auto simp: wf_spmatrix_def list_all_iff N_def)
  \<comment> \<open>the flattened input and its transpose\<close>
  have r1: "reshape_m1 (block_array ny nx blk) N = Inr \<lparr>shape = [T, N], buf = b\<rparr>"
    using pos lb by (simp add: reshape_m1_def block_array_def N_def T_def b_def)
  define X where "X = nd_T \<lparr>shape = [T, N], buf = b\<rparr>"
  have Xs: "shape X = [N, T]"
    and Xb: "buf X = concat (map (\<lambda>c. map (\<lambda>j. b ! (j * N + c)) [0..<T]) [0..<N])"
    by (simp_all add: X_def nd_T_def)
  have Xn: "buf X ! (c * T + j) = b ! (j * N + c)" if "c < N" "j < T" for c j
    unfolding Xb using nd_T_buf_nth[OF that, of "\<lambda>j c. b ! (j * N + c)"] .
  \<comment> \<open>the product\<close>
  define P where "P = \<lparr>shape = [R, T],
      buf = concat (map (\<lambda>row. map (\<lambda>j. row_dot row (\<lambda>c. buf X ! (c * T + j))) [0..<T]) (rows A))\<rparr>"
  have sp: "sp_dot A X = Inr P"
    using A(2) by (simp add: sp_dot_def Xs P_def N_def R_def)
  have Pn: "buf P ! (i * T + j) = row_dot (rows A ! i) (\<lambda>c. concat (blk ! j) ! c)"
    if "i < R" "j < T" for i j
  proof -
    have "\<forall>x\<in>set (map (\<lambda>row. map (\<lambda>j. row_dot row (\<lambda>c. buf X ! (c * T + j))) [0..<T]) (rows A)).
            length x = T" by simp
    from nth_concat_equal[OF this, of i j] that lr
    have "buf P ! (i * T + j) = row_dot (rows A ! i) (\<lambda>c. buf X ! (c * T + j))"
      by (simp add: P_def)
    also have "\<dots> = row_dot (rows A ! i) (\<lambda>c. concat (blk ! j) ! c)"
    proof (rule row_dot_cong)
      have "rows A ! i \<in> set (rows A)" using that lr by simp
      with cols have "\<forall>(c, w)\<in>set (rows A ! i). c < N" by blast
      then show "\<forall>(c, w)\<in>set (rows A ! i). buf X ! (c * T + j) = concat (blk ! j) ! c"
        using Xn bn that by auto
    qed
    finally show ?thesis .
  qed
  \<comment> \<open>transposed back and reshaped\<close>
  define h where "h = (\<lambda>fr. map (\<lambda>row. row_dot row (\<lambda>c. concat fr ! c)) (rows A))"
  have hr: "map (\<lambda>i. row_dot (rows A ! i) (\<lambda>c. concat fr ! c)) [0..<R] = h fr" for fr
    unfolding h_def
    using map_upt_nth[of "\<lambda>row. row_dot row (\<lambda>c. concat fr ! c)" "rows A"] lr by simp
  have Tb: "buf (nd_T P) = concat (map h blk)"
  proof -
    have "buf (nd_T P) = concat (map (\<lambda>j. map (\<lambda>i. buf P ! (i * T + j)) [0..<R]) [0..<T])"
      by (simp add: nd_T_def P_def)
    also have "\<dots> = concat (map (\<lambda>j. map (\<lambda>i. row_dot (rows A ! i) (\<lambda>c. concat (blk ! j) ! c)) [0..<R]) [0..<T])"
      using Pn by (intro arg_cong[where f = concat] map_cong refl) simp
    also have "\<dots> = concat (map (\<lambda>j. h (blk ! j)) [0..<T])"
      by (simp only: hr)
    also have "\<dots> = concat (map h blk)"
      unfolding T_def by (rule arg_cong[where f = concat]) (rule map_upt_nth)
    finally show ?thesis .
  qed
  have Ts: "shape (nd_T P) = [T, R]" by (simp add: nd_T_def P_def)
  have lh: "\<forall>x\<in>set (map h blk). length x = R" using lr by (simp add: h_def)
  have lT: "length (buf (nd_T P)) = T * R"
    unfolding Tb using length_concat_equal[OF lh] by (simp add: T_def)
  define out where "out = (nd_T P)\<lparr>shape := [T, Ny_out, Nx_out]\<rparr>"
  have r2: "reshape (nd_T P) ([T] @ [Ny_out, Nx_out]) = Inr out"
    using lT A(3) by (simp add: reshape_def out_def R_def)
  have calc: "rgr_calc (block_array ny nx blk) A (Ny_out, Nx_out) = Inr out"
    using r1 sp[unfolded X_def] r2
    by (simp add: rgr_calc_def Let_def block_array_def N_def T_def)
  have "chop (Ny_out * Nx_out) T (concat (map h blk)) = map h blk"
    using chop_concat[OF lh] A(3) by (simp add: T_def R_def)
  then have "array_frames out = map (chop Nx_out Ny_out) (map h blk)"
    by (simp add: array_frames_def out_def Tb)
  also have "\<dots> = map (apply_matrix A (Ny_out, Nx_out)) blk"
    by (simp add: apply_matrix_def h_def Let_def)
  finally show ?thesis using calc by blast
qed

lemma map_blocks_all:
  assumes "\<forall>blk\<in>set blks. \<exists>out. f (block_array ny nx blk) = Inr out \<and> array_frames out = map g blk"
  shows "map_blocks f ny nx blks = Inr (map g (concat blks))"
  using assms by (induction blks) auto

lemma set_split_sizes: "blk \<in> set (split_sizes cs xs) \<Longrightarrow> set blk \<subseteq> set xs"
proof (induction cs arbitrary: xs)
  case Nil
  then show ?case by simp
next
  case (Cons c cs)
  from Cons.prems have "blk = take c xs \<or> blk \<in> set (split_sizes cs (drop c xs))" by simp
  then show ?case
  proof
    assume "blk = take c xs"
    then show ?thesis by (simp add: set_take_subset)
  next
    assume "blk \<in> set (split_sizes cs (drop c xs))"
    then have "set blk \<subseteq> set (drop c xs)" by (rule Cons.IH)
    then show ?thesis using set_drop_subset[of c xs] by blast
  qed
qed

lemma wf_add_matrix_NaNs:
  assumes "wf_spmatrix W" "0 < n_cols W"
  shows "wf_spmatrix (add_matrix_NaNs W)"
    "n_cols (add_matrix_NaNs W) = n_cols W" "n_rows (add_matrix_NaNs W) = n_rows W"
  using assms by (auto simp: wf_spmatrix_def add_matrix_NaNs_def list_all_iff)

lemma regrid_dataset_result:
  assumes ready: "regrid_ready weights indata target_grid method"
    and gg: "get_grids indata target_grid = (sgrid, tgrid, dim_val, dim_shape)"
  shows "\<exists>out. regrid_dataset weights indata target_grid method = Inr out \<and>
     vals out = map (apply_matrix (add_matrix_NaNs (weights sgrid tgrid method)) dim_val) (vals indata) \<and>
     time out = time indata \<and> var_attrs out = attrs indata \<and> attrs out = [] \<and>
     lon out = g_lon target_grid \<and> lat out = g_lat target_grid \<and>
     lon_dims out = fst dim_shape \<and> lat_dims out = snd dim_shape \<and>
     dims out = [(''time'', length (time indata)), (''y'', fst dim_val), (''x'', snd dim_val)]"
proof -
  define W where "W = weights sgrid tgrid method"
  define A where "A = add_matrix_NaNs W"
  from ready gg have wf: "wf_dataset indata"
    by (simp add: regrid_ready_def)
  from wf obtain tn yd ny xd nx bt bly blx where
    d: "dims indata = [(''time'', tn), (yd, ny), (xd, nx)]"
    and c: "chunks indata = [(''time'', bt), (yd, bly), (xd, blx)]"
    and pos: "0 < tn" "0 < ny" "0 < nx"
    and lt: "length (time indata) = tn" and lv: "length (vals indata) = tn"
    and sh: "list_all (\<lambda>fr. length fr = ny \<and> list_all (\<lambda>row. length row = nx) fr) (vals indata)"
    and s: "sum_list bt = tn"
    by (rule wf_datasetE)
  from ready gg have W: "wf_spmatrix W" "n_rows W = fst dim_val * snd dim_val"
    and fits: "coord_fits (g_lon target_grid) (fst dim_shape) dim_val"
      "coord_fits (g_lat target_grid) (snd dim_shape) dim_val"
    and one': "length bly = 1" "length blx = 1"
    and nc': "n_cols W = ny * nx"
    by (simp_all add: regrid_ready_def W_def d c)
  have N: "0 < ny * nx" using pos by simp
  have A: "wf_spmatrix A" "n_cols A = ny * nx" "n_rows A = fst dim_val * snd dim_val"
    using wf_add_matrix_NaNs[OF W(1)] nc' N W(2) by (simp_all add: A_def)
  have blocks: "\<forall>blk\<in>set (split_sizes bt (vals indata)).
      \<exists>out. rgr_calc (block_array ny nx blk) A dim_val = Inr out \<and>
            array_frames out = map (apply_matrix A dim_val) blk"
  proof
    fix blk assume "blk \<in> set (split_sizes bt (vals indata))"
    then have "set blk \<subseteq> set (vals indata)" by (rule set_split_sizes)
    with sh have "\<forall>fr\<in>set blk. length fr = ny \<and> list_all (\<lambda>row. length row = nx) fr"
      by (auto simp: list_all_iff)
    from rgr_calc_block[OF this N A(1,2), of "fst dim_val" "snd dim_val"] A(3)
    show "\<exists>out. rgr_calc (block_array ny nx blk) A dim_val = Inr out \<and>
            array_frames out = map (apply_matrix A dim_val) blk" by simp
  qed
  have mb: "map_blocks (\<lambda>blk. rgr_calc blk A dim_val) ny nx (split_sizes bt (vals indata))
      = Inr (map (apply_matrix A dim_val) (vals indata))"
    using map_blocks_all[OF blocks] s lv by (simp add: concat_split_sizes)
  define B where "B = add_matrix_NaNs (weights sgrid tgrid method)"
  have AB: "A = B" by (simp add: A_def W_def B_def)
  have g1: "(map snd (dims indata), map snd (chunks indata)) = ([tn, ny, nx], [bt, bly, blx])"
    by (simp add: d c)
  have g2: "map_of (chunks indata) ''time'' = Some bt" by (simp add: c)
  have g3: "(length bly \<noteq> 1 \<or> length blx \<noteq> 1) = False" using one' by simp
  have g4: "(\<not> coord_fits (g_lon target_grid) (fst dim_shape) dim_val
        \<or> \<not> coord_fits (g_lat target_grid) (snd dim_shape) dim_val
        \<or> length (time indata) \<noteq> length (map (apply_matrix B dim_val) (vals indata))) = False"
    using fits lt lv by simp
  note mb' = mb[unfolded AB B_def]
  have "regrid_dataset weights indata target_grid method =
      Inr \<lparr>dims = [(''time'', length (map (apply_matrix B dim_val) (vals indata))),
                     (''y'', fst dim_val), (''x'', snd dim_val)],
            chunks = [(''time'', bt), (''y'', [fst dim_val]), (''x'', [snd dim_val])],
            attrs = [], var_attrs = attrs indata, n_data_vars = 1, time = time indata,
            lon = g_lon target_grid, lat = g_lat target_grid,
            lon_dims = fst dim_shape, lat_dims = snd dim_shape,
            vals = map (apply_matrix B dim_val) (vals indata)\<rparr>"
    unfolding regrid_dataset_def gg
    by (simp only: prod.case g1 list.case g3 if_False Let_def g2 option.case mb' sum.case g4[unfolded B_def] B_def)
  then show ?thesis using lv lt by (simp add: B_def)
qed





lemma ready_identity_weights:
  "regrid_ready (\<lambda>s t m. identity_weights) small_dataset small_target ''bilinear''"
  by (simp add: regrid_ready_def get_grids_def small_target_def small_dataset_def
      wf_dataset_def spcdim_x_def spcdim_y_def identity_weights_def wf_spmatrix_def)

lemma get_grids_small:
  "get_grids small_dataset small_target =
     (\<lparr>g_lon = Coord1D [10, 11], g_lat = Coord1D [50]\<rparr>, small_target, (1, 2), ([''x''], [''y'']))"
  by (simp add: get_grids_def small_target_def small_dataset_def)

lemma small_dd_mod:
  "small_dd ''mod'' =
     Some \<lparr>e_data = small_dataset,
           e_grid = \<lparr>g_lon = Coord1D [10, 11], g_lat = Coord1D [50]\<rparr>,
           e_gridname = ''grid_MOD_EUR-11''\<rparr>"
  by (simp add: small_dd_def)




text \<open>
  For a participant whose dataset is well-formed and in one block in space, and
  weights that fit the two grids, \<open>regridding\<close> returns a dataset whose values are, at
  every time step, the field flattened, multiplied by the matrix and reshaped to
  \<open>(Ny_out, Nx_out)\<close>, whatever the blocks along time; the time coordinate is that of
  the input; the coordinates are the lon/lat arrays of the target grid, on the
  dimension x (lon) and y (lat) when the target longitudes are one-dimensional and on
  (y, x) otherwise. The attributes of the variable are those of the input dataset, not
  those of the input variable.
\<close>

lemma regridding_applies_matrix:
  assumes "data data_name = Some en"
    and "regrid_ready weights (e_data en) target_grid method"
    and "get_grids (e_data en) target_grid = (sgrid, tgrid, dim_val, dim_shape)"
  shows "\<exists>out. regridding weights data data_name target_grid method = Inr out \<and>
     vals out = map (apply_matrix (add_matrix_NaNs (weights sgrid tgrid method)) dim_val)
                    (vals (e_data en)) \<and>
     time out = time (e_data en) \<and>
     var_attrs out = attrs (e_data en) \<and>
     lon out = g_lon target_grid \<and> lat out = g_lat target_grid \<and>
     lon_dims out = (case g_lon target_grid of Coord1D l \<Rightarrow> [''x''] | Coord2D a \<Rightarrow> [''y'', ''x'']) \<and>
     lat_dims out = (case g_lon target_grid of Coord1D l \<Rightarrow> [''y''] | Coord2D a \<Rightarrow> [''y'', ''x''])"
proof -
  from regrid_dataset_result[OF assms(2,3)] obtain out where
    o: "regrid_dataset weights (e_data en) target_grid method = Inr out"
    "vals out = map (apply_matrix (add_matrix_NaNs (weights sgrid tgrid method)) dim_val)
                    (vals (e_data en))"
    "time out = time (e_data en)" "var_attrs out = attrs (e_data en)"
    "lon out = g_lon target_grid" "lat out = g_lat target_grid"
    "lon_dims out = fst dim_shape" "lat_dims out = snd dim_shape"
    by blast
  have "dim_shape = (case g_lon target_grid of Coord1D l \<Rightarrow> ([''x''], [''y''])
                     | Coord2D a \<Rightarrow> ([''y'', ''x''], [''y'', ''x'']))"
    using assms(3) by (auto simp: get_grids_def Let_def split: coord.splits)
  then have "fst dim_shape = (case g_lon target_grid of Coord1D l \<Rightarrow> [''x''] | Coord2D a \<Rightarrow> [''y'', ''x''])"
    "snd dim_shape = (case g_lon target_grid of Coord1D l \<Rightarrow> [''y''] | Coord2D a \<Rightarrow> [''y'', ''x''])"
    by (simp_all split: coord.splits)
  with o show ?thesis using assms(1) by (simp add: regridding_def)
qed


lemma regridding_applies_matrix_small:
  "regrid_ready (\<lambda>s t m. identity_weights) small_dataset small_target ''bilinear'' \<and>
   (\<exists>out. regridding (\<lambda>s t m. identity_weights) small_dd ''mod'' small_target ''bilinear''
            = Inr out \<and>
      vals out = map (apply_matrix (add_matrix_NaNs identity_weights) (1, 2)) (vals small_dataset) \<and>
      time out = [0, 3600] \<and> var_attrs out = [(''domain'', ''EUR-11'')] \<and>
      lon out = Coord1D [20, 21] \<and> lat out = Coord1D [60] \<and>
      lon_dims out = [''x''] \<and> lat_dims out = [''y''])"
  using regridding_applies_matrix[of small_dd "''mod''" _ "\<lambda>s t m. identity_weights" small_target
      "''bilinear''", OF small_dd_mod]
    ready_identity_weights get_grids_small
  by (simp add: small_target_def small_dataset_def)

text \<open>
  C4. The returned dataset is said to keep the attributes of the input variable.
  \<open>regridding\<close> builds the new variable with \<open>attrs=indata.attrs.copy()\<close>, where
  \<open>indata\<close> is the dataset and not its variable. For the participant \<open>mod\<close>, whose
  variable has the attribute \<open>units\<close> and whose dataset has the attribute \<open>domain\<close>,
  the variable of the regridded dataset has the attribute \<open>domain\<close> of the dataset;
  the attribute \<open>units\<close> of the variable is lost.
\<close>

theorem regridding_variable_attrs_lost:
  "\<exists>out. regridding (\<lambda>s t m. identity_weights) small_dd ''mod'' small_target ''bilinear''
          = Inr out \<and>
     var_attrs small_dataset = [(''units'', ''mm'')] \<and>
     attrs small_dataset = [(''domain'', ''EUR-11'')] \<and>
     var_attrs out = [(''domain'', ''EUR-11'')] \<and>
     var_attrs out \<noteq> var_attrs small_dataset"
  using regrid_dataset_result[OF ready_identity_weights get_grids_small]
  by (auto simp add: regridding_def small_dd_def small_dataset_def)


section \<open>Properties of \<open>get_prep_func\<close>\<close>

text \<open>
  C10. On a series of \<open>n \<ge> 1\<close> time steps the preprocessing function returns
  \<open>n - 1\<close> time steps for either value of \<open>deacc\<close>: the differences of successive
  steps, labelled with the later time, when \<open>deacc\<close> holds, and the input without its
  last step otherwise.
\<close>

theorem get_prep_func_shortens:
  assumes "length (ts_vals d) = length (ts_time d)" "1 \<le> length (ts_time d)"
  shows "length (ts_time (get_prep_func deacc d)) = length (ts_time d) - 1 \<and>
         length (ts_vals (get_prep_func deacc d)) = length (ts_time d) - 1 \<and>
         (if deacc
          then ts_time (get_prep_func deacc d) = tl (ts_time d) \<and>
               (\<forall>i < length (ts_time d) - 1.
                  ts_vals (get_prep_func deacc d) ! i =
                    map2 (map2 fsub) (ts_vals d ! (i + 1)) (ts_vals d ! i))
          else ts_time (get_prep_func deacc d) = butlast (ts_time d) \<and>
               ts_vals (get_prep_func deacc d) = butlast (ts_vals d))"
  using assms
  by (auto simp: get_prep_func_def xr_diff_time_def xr_isel_time_0_m1_def nth_tl nth_butlast)


theorem get_prep_func_shortens_witness:
  "length (ts_vals small_series) = length (ts_time small_series) \<and> 1 \<le> length (ts_time small_series) \<and>
   get_prep_func True small_series = \<lparr>ts_time = [3600, 7200], ts_vals = [[[Val 2, Val 3]], [[Val 3, Val 4]]]\<rparr> \<and>
   length (ts_time (get_prep_func True small_series)) = 2 \<and>
   get_prep_func False small_series = \<lparr>ts_time = [0, 3600], ts_vals = [[[Val 1, Val 2]], [[Val 3, Val 5]]]\<rparr> \<and>
   length (ts_time (get_prep_func False small_series)) = 2"
  using get_prep_func_shortens[of small_series True] get_prep_func_shortens[of small_series False]
  by (simp add: small_series_def get_prep_func_def xr_diff_time_def xr_isel_time_0_m1_def)


section \<open>Properties of \<open>get_obs_data\<close>\<close>

text \<open>
  One-dimensional coordinates: strictly monotone lon/lat arrays come back ascending.
\<close>

lemma ascending_sorted_wrt: "ascending l = sorted_wrt (<) l"
  by (induction l rule: ascending.induct) (auto intro: less_trans)

lemma descending_sorted_wrt: "descending l = sorted_wrt (>) l"
  by (induction l rule: descending.induct) (auto intro: less_trans)

lemma descending_rev: "descending l \<Longrightarrow> ascending (rev l)"
  by (simp add: ascending_sorted_wrt descending_sorted_wrt sorted_wrt_rev)

lemma np_diff0_descending:
  assumes "descending l" "2 \<le> length l"
  shows "\<exists>d. np_diff0 l = Inr d \<and> d < 0"
  using assms by (cases l rule: np_diff0.cases) auto

lemma np_diff0_ascending:
  assumes "ascending l" "2 \<le> length l"
  shows "\<exists>d. np_diff0 l = Inr d \<and> \<not> d < 0"
  using assms by (cases l rule: np_diff0.cases) auto

lemma get_obs_data_1d:
  assumes g: "lons g = Coord1D lo" "lats g = Coord1D la"
    and lo: "ascending lo \<or> descending lo" and la: "ascending la \<or> descending la"
    and len: "2 \<le> length lo" "2 \<le> length la"
  shows "\<exists>out lo' la'. get_obs_data g = Inr out \<and>
           lons out = Coord1D lo' \<and> lats out = Coord1D la' \<and> ascending lo' \<and> ascending la'"
proof -
  from lo len(1) obtain d where d: "np_diff0 lo = Inr d"
    and d': "(\<not> d < 0 \<and> ascending lo) \<or> (d < 0 \<and> descending lo)"
    using np_diff0_descending np_diff0_ascending by metis
  from la len(2) obtain e where e: "np_diff0 la = Inr e"
    and e': "(\<not> e < 0 \<and> ascending la) \<or> (e < 0 \<and> descending la)"
    using np_diff0_descending np_diff0_ascending by metis
  from d' e' show ?thesis
    by (auto simp: get_obs_data_def g d e Let_def descending_rev)
qed


text \<open>
  C9. Two-dimensional coordinates whose longitudes decrease along x, on dimensions
  with index coordinates: \<open>np.flipud\<close> reverses the rows of the longitude array, so the
  returned longitudes still decrease along x (and the rows have changed places), while
  the data is reversed along x.
\<close>

theorem get_obs_data_2d_descending_lon:
  "get_obs_data \<lparr>lons = Coord2D [[20, 10], [21, 11]], lats = Coord2D [[50, 50], [51, 51]],
                  x_index = True, y_index = True,
                  obs_vals = [[[Val 1, Val 2], [Val 3, Val 4]]]\<rparr>
   = Inr \<lparr>lons = Coord2D [[21, 11], [20, 10]], lats = Coord2D [[50, 50], [51, 51]],
          x_index = True, y_index = True,
          obs_vals = [[[Val 2, Val 1], [Val 4, Val 3]]]\<rparr>
   \<and> \<not> lon_ascending (Coord2D [[21, 11], [20, 10]])"
  by (simp add: get_obs_data_def col0_def flipud_def reindex_rev_x_def lon_ascending_def)


section \<open>Properties of \<open>remap_func\<close>\<close>










section \<open>Properties of \<open>calc_stats\<close>\<close>

lemma broadcast_fits:
  assumes "mask_fits m data"
  shows "broadcast_to m (map snd (dims data)) = Inr (replicate (time_size data) m)"
proof -
  from assms obtain tn ny nx where
    d: "map snd (dims data) = [tn, ny, nx]"
    and l: "length m = ny" and r: "list_all (\<lambda>row. length row = nx) m"
    by (auto simp: mask_fits_def split: list.splits)
  have rows: "\<forall>row\<in>set m. length row = nx" using r by (simp add: list_all_iff)
  have e1: "\<not> list_ex (\<lambda>row. length row \<noteq> length (hd m)) m"
    using rows by (cases m) (auto simp: list_ex_iff)
  have e2: "\<not> list_ex (\<lambda>row. length row \<noteq> nx \<and> length row \<noteq> 1) m"
    using rows by (auto simp: list_ex_iff)
  have e3: "map (\<lambda>row. if length row = nx then row else replicate nx (hd row)) m = m"
    using rows by (simp add: map_idI)
  show ?thesis
    using e1 e2 l by (simp add: broadcast_to_def d e3 stretch_def time_size_def)
qed

lemma get_masked_data_fits:
  "mask_fits m data \<Longrightarrow>
     get_masked_data X data m = Inr (where_drop X data (replicate (time_size data) m))"
  by (simp add: get_masked_data_def broadcast_fits)

lemma masked_regions_fits:
  "\<forall>r\<in>set rs. mask_fits (masks r) data \<Longrightarrow>
     masked_regions X data masks rs =
       Inr (map (\<lambda>r. (r, where_drop X data (replicate (time_size data) (masks r)))) rs)"
  by (induction rs) (simp_all add: get_masked_data_fits)

lemma map_of_map_key: "r \<in> set rs \<Longrightarrow> map_of (map (\<lambda>r. (r, F r)) rs) r = Some (F r)"
  by (induction rs) auto

lemma dom_map_of_map_key: "dom (map_of (map (\<lambda>r. (r, F r)) rs)) = set rs"
  by (simp add: dom_map_of_conv_image_fst image_image)

text \<open>
  The loop body with regions configured, on a participant that is ready: the
  statistic of the whole domain and one result per region, the statistic of the data
  selected by the mask of the region with \<open>pool\<close>, and the statistic of the domain
  selected by the mask without.
\<close>

lemma calc_stats_entry_result:
  assumes ready: "stats_ready X indata v stat pool chunk_dim stats_config (Some rs)"
    and ne: "rs \<noteq> []"
  shows "\<exists>res sm data.
     calc_stats_entry X indata v stat pool chunk_dim stats_config (Some rs) = Inr res \<and>
     calc_stats_input X indata stat chunk_dim stats_config = Inr data \<and>
     st_domain res = calc_statistics X data v stat \<and> st_regions res = Some sm \<and> dom sm = set rs \<and>
     (\<forall>r \<in> set rs. sm r = Some
        (if pool
         then calc_statistics X
                (where_drop X data
                   (replicate (time_size data) (reg_mask X (lon data) (lat data) r))) v stat
         else where_drop X (calc_statistics X data v stat)
                (replicate (time_size (calc_statistics X data v stat))
                   (reg_mask X (lon data) (lat data) r))))"
proof -
  from ne obtain r0 rs' where rs: "rs = r0 # rs'" by (cases rs) auto
  from ready obtain data where
    inp: "calc_stats_input X indata stat chunk_dim stats_config = Inr data"
    by (auto simp: stats_ready_def split: sum.splits)
  define dm where "dm = calc_statistics X data v stat"
  define masks where "masks = (\<lambda>r. reg_mask X (lon data) (lat data) r)"
  define Fp where "Fp = (\<lambda>r. if pool
         then calc_statistics X (where_drop X data (replicate (time_size data) (masks r))) v stat
         else where_drop X dm (replicate (time_size dm) (masks r)))"
  from ready inp have fits:
    "\<forall>r\<in>set rs. mask_fits (masks r) (if pool then data else dm)"
    by (cases pool) (simp_all add: stats_ready_def rs list_all_iff masks_def dm_def)
  have res: "calc_stats_entry X indata v stat pool chunk_dim stats_config (Some rs) =
      Inr \<lparr>st_domain = dm, st_regions = Some (map_of (map (\<lambda>r. (r, Fp r)) rs))\<rparr>"
  proof (cases pool)
    case True
    with fits have "\<forall>r\<in>set rs. mask_fits (masks r) data" by simp
    from masked_regions_fits[OF this, of X]
    have "masked_regions X data masks (r0 # rs') =
        Inr (map (\<lambda>r. (r, where_drop X data (replicate (time_size data) (masks r)))) (r0 # rs'))"
      by (simp add: rs)
    then show ?thesis
      using inp True unfolding calc_stats_entry_def rs
      by (simp add: Let_def Fp_def dm_def masks_def comp_def)
  next
    case False
    with fits have "\<forall>r\<in>set rs. mask_fits (masks r) dm" by simp
    from masked_regions_fits[OF this, of X]
    have "masked_regions X dm masks (r0 # rs') =
        Inr (map (\<lambda>r. (r, where_drop X dm (replicate (time_size dm) (masks r)))) (r0 # rs'))"
      by (simp add: rs)
    then show ?thesis
      using inp False unfolding calc_stats_entry_def rs
      by (simp add: Let_def Fp_def dm_def masks_def)
  qed
  moreover have "\<forall>r\<in>set rs. map_of (map (\<lambda>r. (r, Fp r)) rs) r = Some (Fp r)"
    by (simp add: map_of_map_key)
  moreover have "dom (map_of (map (\<lambda>r. (r, Fp r)) rs)) = set rs"
    by (rule dom_map_of_map_key)
  ultimately show ?thesis using inp unfolding Fp_def dm_def masks_def by simp
qed

text \<open>Every result of the loop body holds the statistic of the prepared input.\<close>

lemma calc_stats_entry_domain:
  assumes "calc_stats_entry X indata v stat pool chunk_dim stats_config regions = Inr res"
  shows "\<exists>data. calc_stats_input X indata stat chunk_dim stats_config = Inr data \<and>
           st_domain res = calc_statistics X data v stat"
  using assms
  by (auto simp: calc_stats_entry_def Let_def split: sum.splits option.splits list.splits if_splits)

text \<open>The loop body goes through on a participant that is ready.\<close>

lemma calc_stats_entry_ready:
  assumes "stats_ready X indata v stat pool chunk_dim stats_config regions"
  shows "\<exists>res. calc_stats_entry X indata v stat pool chunk_dim stats_config regions = Inr res"
proof (cases "\<exists>r0 rs. regions = Some (r0 # rs)")
  case True
  then obtain r0 rs where r: "regions = Some (r0 # rs)" by blast
  from calc_stats_entry_result[of X indata v stat pool chunk_dim stats_config "r0 # rs"] assms r
  show ?thesis by auto
next
  case False
  from assms obtain data where
    inp: "calc_stats_input X indata stat chunk_dim stats_config = Inr data"
    by (auto simp: stats_ready_def split: sum.splits)
  from False inp show ?thesis
    by (auto simp: calc_stats_entry_def Let_def split: option.splits list.splits)
qed

lemma participants_result:
  assumes "\<forall>(m, en) \<in> set (with_data ps).
             \<exists>r. calc_stats_entry X (e_data en) v stat pool cd sc rg = Inr r"
  shows "\<exists>res. calc_stats_participants X ps v stat pool cd sc rg = Inr res \<and>
           list_all2 (\<lambda>(m, en) (m', r). m' = m \<and>
                        calc_stats_entry X (e_data en) v stat pool cd sc rg = Inr r)
             (with_data ps) res"
  using assms
proof (induction ps)
  case Nil
  then show ?case by (simp add: with_data_def)
next
  case (Cons p ps)
  obtain m eo where p: "p = (m, eo)" by (cases p)
  have wd: "with_data (p # ps) = (case eo of None \<Rightarrow> [] | Some en \<Rightarrow> [(m, en)]) @ with_data ps"
    by (simp add: with_data_def p)
  from Cons.prems wd have "\<forall>(m, en) \<in> set (with_data ps).
             \<exists>r. calc_stats_entry X (e_data en) v stat pool cd sc rg = Inr r" by auto
  with Cons.IH obtain res where
    res: "calc_stats_participants X ps v stat pool cd sc rg = Inr res"
    "list_all2 (\<lambda>(m, en) (m', r). m' = m \<and>
                        calc_stats_entry X (e_data en) v stat pool cd sc rg = Inr r)
             (with_data ps) res" by blast
  show ?case
  proof (cases eo)
    case None
    then show ?thesis using res p wd by simp
  next
    case (Some en)
    with Cons.prems wd obtain r where "calc_stats_entry X (e_data en) v stat pool cd sc rg = Inr r"
      by auto
    then show ?thesis using res p wd Some by simp
  qed
qed

lemma with_data_keys:
  assumes "distinct (map fst ps)" "(m, None) \<in> set ps"
  shows "m \<notin> fst ` set (with_data ps)"
proof -
  have "set (with_data ps) = {(m, en). (m, Some en) \<in> set ps}"
    by (induction ps) (auto simp: with_data_def split: option.splits)
  moreover have "(m, Some en) \<notin> set ps" for en
    using map_of_is_SomeI[OF assms(1), of m None] map_of_is_SomeI[OF assms(1), of m "Some en"] assms(2)
    by auto
  ultimately show ?thesis by auto
qed

lemma list_all2_keys:
  "list_all2 (\<lambda>(m, en) (m', r). m' = m \<and> P m en r) xs res \<Longrightarrow> map fst res = map fst xs"
  by (induction xs res rule: list_all2_induct) auto


lemma with_data_set: "set (with_data ps) = {(m, en). (m, Some en) \<in> set ps}"
  by (induction ps) (auto simp: with_data_def split: option.splits)


lemma calc_stats_result:
  assumes "\<forall>(v, f) \<in> set vv. \<exists>dv ps. ddict f = Some dv \<and> dv v = Some ps \<and>
             (\<forall>(m, en) \<in> set (with_data ps).
                \<exists>r. calc_stats_entry X (e_data en) v stat pool chunk_dim stats_config regions = Inr r)"
  shows "\<exists>st. calc_stats X ddict vv stat pool chunk_dim stats_config regions = Inr st \<and>
     list_all2 (\<lambda>(v, f) (v', res). v' = v \<and>
        (\<exists>dv ps. ddict f = Some dv \<and> dv v = Some ps \<and>
           map fst res = map fst (with_data ps) \<and>
           (distinct (map fst ps) \<longrightarrow> (\<forall>m. (m, None) \<in> set ps \<longrightarrow> m \<notin> fst ` set res)) \<and>
           list_all2 (\<lambda>(m, en) (m', r). m' = m \<and>
                calc_stats_entry X (e_data en) v stat pool chunk_dim stats_config regions = Inr r)
             (with_data ps) res))
       vv st"
proof -
  define Q where "Q = (\<lambda>(v, f) (v', res). v' = v \<and>
        (\<exists>dv ps. ddict f = Some dv \<and> dv v = Some ps \<and>
           map fst res = map fst (with_data ps) \<and>
           (distinct (map fst ps) \<longrightarrow> (\<forall>m. (m, None) \<in> set ps \<longrightarrow> m \<notin> fst ` set res)) \<and>
           list_all2 (\<lambda>(m, en) (m', r). m' = m \<and>
                calc_stats_entry X (e_data en) v stat pool chunk_dim stats_config regions = Inr r)
             (with_data ps) res))"
  have "\<exists>st. calc_stats X ddict vv stat pool chunk_dim stats_config regions = Inr st \<and>
          list_all2 Q vv st"
    using assms
  proof (induction vv)
    case Nil
    then show ?case by simp
  next
    case (Cons p vv)
    obtain v f where p: "p = (v, f)" by (cases p)
    from Cons.prems p obtain dv ps where
      d: "ddict f = Some dv" "dv v = Some ps"
      and c: "\<forall>(m, en) \<in> set (with_data ps).
                \<exists>r. calc_stats_entry X (e_data en) v stat pool chunk_dim stats_config regions = Inr r"
      by auto
    from participants_result[OF c] obtain res where
      res: "calc_stats_participants X ps v stat pool chunk_dim stats_config regions = Inr res"
      "list_all2 (\<lambda>(m, en) (m', r). m' = m \<and>
                calc_stats_entry X (e_data en) v stat pool chunk_dim stats_config regions = Inr r)
             (with_data ps) res" by blast
    have keys: "map fst res = map fst (with_data ps)"
      using res(2) by (rule list_all2_keys)
    have none: "m \<notin> fst ` set res" if "distinct (map fst ps)" "(m, None) \<in> set ps" for m
    proof -
      have "fst ` set res = fst ` set (with_data ps)"
        using keys by (metis list.set_map)
      with with_data_keys[OF that] show ?thesis by simp
    qed
    from Cons.IH Cons.prems obtain st where
      st: "calc_stats X ddict vv stat pool chunk_dim stats_config regions = Inr st"
      "list_all2 Q vv st" by auto
    have "calc_stats X ddict (p # vv) stat pool chunk_dim stats_config regions = Inr ((v, res) # st)"
      using p d res(1) st(1) by simp
    moreover have "Q p (v, res)"
      unfolding Q_def p using d keys none res(2) by auto
    ultimately show ?case using st(2) by simp
  qed
  then show ?thesis unfolding Q_def .
qed




lemma hourly_input:
  "calc_stats_input test_ext (hourly_dataset a b) ''total'' ''time'' test_config =
     Inr \<lparr>dims = [(''time'', 2), (''lat'', 1), (''lon'', 2)],
          chunks = [(''time'', [1, 1]), (''lat'', [1]), (''lon'', [2])],
          attrs = [], var_attrs = [(''units'', ''mm'')], n_data_vars = 1,
          time = [0, 3600],
          lon = Coord1D [10, 11], lat = Coord1D [50],
          lon_dims = [''lon''], lat_dims = [''lat''],
          vals = [[[Val a, Val b]], [[Val 3, Val 4]]]\<rparr>"
  by (simp add: calc_stats_input_def test_config_def hourly_dataset_def small_dataset_def
      test_ext_def manage_chunks_def select_variable_def Let_def)

lemma test_ext_sel:
  "calc_statistics test_ext = test_statistic"
  "reg_mask test_ext lo la r = (if r = ''west'' then [[True, False]] else [[False, True]])"
  "where_drop test_ext = test_where_drop"
  by (simp_all add: test_ext_def)

lemma hourly_statistic:
  "calc_statistics test_ext
     \<lparr>dims = [(''time'', 2), (''lat'', 1), (''lon'', 2)],
      chunks = [(''time'', [1, 1]), (''lat'', [1]), (''lon'', [2])],
      attrs = [], var_attrs = [(''units'', ''mm'')], n_data_vars = 1,
      time = [0, 3600],
      lon = Coord1D [10, 11], lat = Coord1D [50],
      lon_dims = [''lon''], lat_dims = [''lat''],
      vals = [[[Val a, Val b]], [[Val 3, Val 4]]]\<rparr> v s =
     \<lparr>dims = [(''time'', 1), (''lat'', 1), (''lon'', 2)],
      chunks = [(''time'', [1]), (''lat'', [1]), (''lon'', [2])],
      attrs = [], var_attrs = [(''units'', ''mm'')], n_data_vars = 1,
      time = [0],
      lon = Coord1D [10, 11], lat = Coord1D [50],
      lon_dims = [''lon''], lat_dims = [''lat''],
      vals = [[[Val (a + b), Val (a + b)]]]\<rparr>"
  by (simp add: test_ext_sel test_statistic_def valid_total_def with_time_steps_def
      one_block_def Let_def)

lemma hourly_ready:
  "stats_ready test_ext (hourly_dataset a b) v ''total'' pool ''time'' test_config rg"
  unfolding stats_ready_def hourly_input sum.case hourly_statistic test_ext_sel(2)
  by (simp add: mask_fits_def list_all_iff split: option.splits list.splits)






text \<open>
  C8. When every participant that has data is ready, \<open>calc_stats\<close> returns, whatever
  participants have the entry \<open>None\<close>: for every variable the result holds exactly
  the participants with data, in order, and no entry under the name of a participant
  without data; the result of each participant with data is that of the loop body on
  its data, and its \<open>domain\<close> is the statistic of its prepared input.
\<close>

theorem calc_stats_skips_missing:
  assumes ready: "\<forall>(v, f) \<in> set vv. \<exists>dv ps. ddict f = Some dv \<and> dv v = Some ps \<and>
             (\<forall>m en. (m, Some en) \<in> set ps \<longrightarrow>
                stats_ready X (e_data en) v stat pool chunk_dim stats_config regions)"
  shows "\<exists>st. calc_stats X ddict vv stat pool chunk_dim stats_config regions = Inr st \<and>
     list_all2 (\<lambda>(v, f) (v', res). v' = v \<and>
        (\<exists>dv ps. ddict f = Some dv \<and> dv v = Some ps \<and>
           map fst res = map fst (with_data ps) \<and>
           (distinct (map fst ps) \<longrightarrow> (\<forall>m. (m, None) \<in> set ps \<longrightarrow> m \<notin> fst ` set res)) \<and>
           list_all2 (\<lambda>(m, en) (m', r). m' = m \<and>
                calc_stats_entry X (e_data en) v stat pool chunk_dim stats_config regions = Inr r \<and>
                (\<exists>data. calc_stats_input X (e_data en) stat chunk_dim stats_config = Inr data \<and>
                        st_domain r = calc_statistics X data v stat))
             (with_data ps) res))
       vv st"
proof -
  have entries: "\<forall>(v, f) \<in> set vv. \<exists>dv ps. ddict f = Some dv \<and> dv v = Some ps \<and>
             (\<forall>(m, en) \<in> set (with_data ps).
                \<exists>r. calc_stats_entry X (e_data en) v stat pool chunk_dim stats_config regions = Inr r)"
  proof (clarify)
    fix v f assume "(v, f) \<in> set vv"
    with ready obtain dv ps where d: "ddict f = Some dv" "dv v = Some ps"
      and i: "\<forall>m en. (m, Some en) \<in> set ps \<longrightarrow>
                stats_ready X (e_data en) v stat pool chunk_dim stats_config regions"
      by blast
    have "\<exists>r. calc_stats_entry X (e_data en) v stat pool chunk_dim stats_config regions = Inr r"
      if "(m, en) \<in> set (with_data ps)" for m en
    proof -
      from that have "(m, Some en) \<in> set ps" by (simp add: with_data_set)
      with i have "stats_ready X (e_data en) v stat pool chunk_dim stats_config regions"
        by blast
      then show ?thesis by (rule calc_stats_entry_ready)
    qed
    with d show "\<exists>dv ps. ddict f = Some dv \<and> dv v = Some ps \<and>
             (\<forall>(m, en) \<in> set (with_data ps).
                \<exists>r. calc_stats_entry X (e_data en) v stat pool chunk_dim stats_config regions = Inr r)"
      by blast
  qed
  from calc_stats_result[OF entries] obtain st where
    st: "calc_stats X ddict vv stat pool chunk_dim stats_config regions = Inr st"
    and all: "list_all2 (\<lambda>(v, f) (v', res). v' = v \<and>
        (\<exists>dv ps. ddict f = Some dv \<and> dv v = Some ps \<and>
           map fst res = map fst (with_data ps) \<and>
           (distinct (map fst ps) \<longrightarrow> (\<forall>m. (m, None) \<in> set ps \<longrightarrow> m \<notin> fst ` set res)) \<and>
           list_all2 (\<lambda>(m, en) (m', r). m' = m \<and>
                calc_stats_entry X (e_data en) v stat pool chunk_dim stats_config regions = Inr r)
             (with_data ps) res))
       vv st" by blast
  have inner: "list_all2 (\<lambda>(m, en) (m', r). m' = m \<and>
                calc_stats_entry X (e_data en) v stat pool chunk_dim stats_config regions = Inr r \<and>
                (\<exists>data. calc_stats_input X (e_data en) stat chunk_dim stats_config = Inr data \<and>
                        st_domain r = calc_statistics X data v stat)) xs res"
    if "list_all2 (\<lambda>(m, en) (m', r). m' = m \<and>
                calc_stats_entry X (e_data en) v stat pool chunk_dim stats_config regions = Inr r)
             xs res" for v xs res
    using that by (rule list_all2_mono) (auto dest: calc_stats_entry_domain)
  have "list_all2 (\<lambda>(v, f) (v', res). v' = v \<and>
        (\<exists>dv ps. ddict f = Some dv \<and> dv v = Some ps \<and>
           map fst res = map fst (with_data ps) \<and>
           (distinct (map fst ps) \<longrightarrow> (\<forall>m. (m, None) \<in> set ps \<longrightarrow> m \<notin> fst ` set res)) \<and>
           list_all2 (\<lambda>(m, en) (m', r). m' = m \<and>
                calc_stats_entry X (e_data en) v stat pool chunk_dim stats_config regions = Inr r \<and>
                (\<exists>data. calc_stats_input X (e_data en) stat chunk_dim stats_config = Inr data \<and>
                        st_domain r = calc_statistics X data v stat))
             (with_data ps) res))
       vv st"
    using all
  proof (rule list_all2_mono)
    fix x y
    assume h: "(case x of (v, f) \<Rightarrow> \<lambda>(v', res). v' = v \<and>
        (\<exists>dv ps. ddict f = Some dv \<and> dv v = Some ps \<and>
           map fst res = map fst (with_data ps) \<and>
           (distinct (map fst ps) \<longrightarrow> (\<forall>m. (m, None) \<in> set ps \<longrightarrow> m \<notin> fst ` set res)) \<and>
           list_all2 (\<lambda>(m, en) (m', r). m' = m \<and>
                calc_stats_entry X (e_data en) v stat pool chunk_dim stats_config regions = Inr r)
             (with_data ps) res)) y"
    obtain v f where x: "x = (v, f)" by (cases x)
    obtain v' res where y: "y = (v', res)" by (cases y)
    from h x y obtain dv ps where
      k: "v' = v" "ddict f = Some dv" "dv v = Some ps" "map fst res = map fst (with_data ps)"
      "distinct (map fst ps) \<longrightarrow> (\<forall>m. (m, None) \<in> set ps \<longrightarrow> m \<notin> fst ` set res)"
      and l: "list_all2 (\<lambda>(m, en) (m', r). m' = m \<and>
                calc_stats_entry X (e_data en) v stat pool chunk_dim stats_config regions = Inr r)
             (with_data ps) res"
      by auto
    from inner[OF l] k
    show "(case x of (v, f) \<Rightarrow> \<lambda>(v', res). v' = v \<and>
        (\<exists>dv ps. ddict f = Some dv \<and> dv v = Some ps \<and>
           map fst res = map fst (with_data ps) \<and>
           (distinct (map fst ps) \<longrightarrow> (\<forall>m. (m, None) \<in> set ps \<longrightarrow> m \<notin> fst ` set res)) \<and>
           list_all2 (\<lambda>(m, en) (m', r). m' = m \<and>
                calc_stats_entry X (e_data en) v stat pool chunk_dim stats_config regions = Inr r \<and>
                (\<exists>data. calc_stats_input X (e_data en) stat chunk_dim stats_config = Inr data \<and>
                        st_domain r = calc_statistics X data v stat))
             (with_data ps) res)) y"
      unfolding x y by simp
  qed
  with st show ?thesis by blast
qed

theorem calc_stats_skips_missing_witness:
  "\<exists>r1 r2. calc_stats test_ext test_ddict [(''pr'', ''1H'')] ''total'' False ''time'' test_config None
       = Inr [(''pr'', [(''mod'', r1), (''obs'', r2)])] \<and>
     attrs (st_domain r1) = [] \<and> time (st_domain r1) = [0] \<and>
     vals (st_domain r1) = [[[Val 3, Val 3]]] \<and>
     attrs (st_domain r2) = [] \<and> time (st_domain r2) = [0] \<and>
     vals (st_domain r2) = [[[Val 11, Val 11]]]"
proof -
  have h: "\<forall>(v, f) \<in> set [(''pr'', ''1H'')]. \<exists>dv ps. test_ddict f = Some dv \<and> dv v = Some ps \<and>
             (\<forall>m en. (m, Some en) \<in> set ps \<longrightarrow>
                stats_ready test_ext (e_data en) v ''total'' False ''time'' test_config None)"
    by (auto simp: test_ddict_def hourly_ready)
  from calc_stats_skips_missing[OF h] obtain st where
    st: "calc_stats test_ext test_ddict [(''pr'', ''1H'')] ''total'' False ''time'' test_config None
          = Inr st"
    and all: "list_all2 (\<lambda>(v, f) (v', res). v' = v \<and>
        (\<exists>dv ps. test_ddict f = Some dv \<and> dv v = Some ps \<and>
           map fst res = map fst (with_data ps) \<and>
           (distinct (map fst ps) \<longrightarrow> (\<forall>m. (m, None) \<in> set ps \<longrightarrow> m \<notin> fst ` set res)) \<and>
           list_all2 (\<lambda>(m, en) (m', r). m' = m \<and>
                calc_stats_entry test_ext (e_data en) v ''total'' False ''time'' test_config None = Inr r \<and>
                (\<exists>data. calc_stats_input test_ext (e_data en) ''total'' ''time'' test_config = Inr data \<and>
                        st_domain r = calc_statistics test_ext data v ''total''))
             (with_data ps) res))
       [(''pr'', ''1H'')] st" by (elim exE conjE)
  from all obtain r1 r2 where
    s: "st = [(''pr'', [(''mod'', r1), (''obs'', r2)])]"
    and d1: "\<exists>data. calc_stats_input test_ext (hourly_dataset 1 2) ''total'' ''time'' test_config = Inr data \<and>
                        st_domain r1 = calc_statistics test_ext data ''pr'' ''total''"
    and d2: "\<exists>data. calc_stats_input test_ext (hourly_dataset 5 6) ''total'' ''time'' test_config = Inr data \<and>
                        st_domain r2 = calc_statistics test_ext data ''pr'' ''total''"
    by (auto simp: list_all2_Cons1 test_ddict_def with_data_def)
  have v1: "attrs (st_domain r1) = [] \<and> time (st_domain r1) = [0] \<and>
     vals (st_domain r1) = [[[Val 3, Val 3]]]"
  proof -
    from d1 obtain data where
      i: "calc_stats_input test_ext (hourly_dataset 1 2) ''total'' ''time'' test_config = Inr data"
      and e: "st_domain r1 = calc_statistics test_ext data ''pr'' ''total''"
      by (elim exE conjE)
    from i have "Inr data = calc_stats_input test_ext (hourly_dataset 1 2) ''total'' ''time'' test_config"
      by simp
    then show ?thesis
      unfolding e hourly_input sum.inject by (simp only: hourly_statistic) simp
  qed
  have v2: "attrs (st_domain r2) = [] \<and> time (st_domain r2) = [0] \<and>
     vals (st_domain r2) = [[[Val 11, Val 11]]]"
  proof -
    from d2 obtain data where
      i: "calc_stats_input test_ext (hourly_dataset 5 6) ''total'' ''time'' test_config = Inr data"
      and e: "st_domain r2 = calc_statistics test_ext data ''pr'' ''total''"
      by (elim exE conjE)
    from i have "Inr data = calc_stats_input test_ext (hourly_dataset 5 6) ''total'' ''time'' test_config"
      by simp
    then show ?thesis
      unfolding e hourly_input sum.inject by (simp only: hourly_statistic) simp
  qed
  from st s v1 v2 show ?thesis by (intro exI[of _ r1] exI[of _ r2]) simp
qed

end
